theory Spec2Isabelle
  imports Main "HOL-Library.Sublist"
begin

section \<open>Text\<close>

text \<open>
  The script is \<^verbatim>\<open>scripts/setup-supabase.py\<close>. A Python \<^verbatim>\<open>str\<close> is a sequence of
  Unicode code points, so text is a list of code points here (a \<^typ>\<open>char\<close> of HOL has
  eight bits only, and the script prints characters far beyond that).
  \<open>u\<close> turns an ASCII literal into such a text. A file's contents are its characters
  as they are stored (decoded with the encoding of the platform); reading the file in
  text mode translates the line ends, see \<open>universal_newlines\<close>.
\<close>

type_synonym ustring = "nat list"

definition u :: "string \<Rightarrow> ustring" where
  "u s = map of_char s"

text \<open>
  \<^verbatim>\<open>str.isspace\<close> of one code point: the white space that \<^verbatim>\<open>str.strip()\<close>
  removes (U+0009..U+000D, U+001C..U+0020, U+0085, U+00A0, U+1680, U+2000..U+200A,
  U+2028, U+2029, U+202F, U+205F, U+3000).
\<close>

definition is_space :: "nat \<Rightarrow> bool" where
  "is_space c =
     ((9 \<le> c \<and> c \<le> 13) \<or> (28 \<le> c \<and> c \<le> 32) \<or> c = 133 \<or> c = 160 \<or> c = 5760
      \<or> (8192 \<le> c \<and> c \<le> 8202) \<or> c = 8232 \<or> c = 8233 \<or> c = 8239 \<or> c = 8287
      \<or> c = 12288)"

definition lstrip :: "ustring \<Rightarrow> ustring" where
  "lstrip s = dropWhile is_space s"

definition rstrip :: "ustring \<Rightarrow> ustring" where
  "rstrip s = rev (dropWhile is_space (rev s))"

definition strip :: "ustring \<Rightarrow> ustring" where
  "strip s = rstrip (lstrip s)"

definition startswith :: "ustring \<Rightarrow> ustring \<Rightarrow> bool" where
  "startswith s p = prefix p s"

text \<open>\<^verbatim>\<open>s.split(sep, 1)\<close> for a separator of one character: one part when the
  separator does not occur, else the text before its first occurrence and the text after.\<close>

definition split1 :: "nat \<Rightarrow> ustring \<Rightarrow> ustring list" where
  "split1 sep s =
     (if sep \<in> set s
      then [takeWhile (\<lambda>c. c \<noteq> sep) s, tl (dropWhile (\<lambda>c. c \<noteq> sep) s)]
      else [s])"

text \<open>\<^verbatim>\<open>s.replace(old, new)\<close>: the occurrences of \<open>old\<close> are found from the left,
  without overlap, and each is replaced; an empty \<open>old\<close> matches before every character
  and at the end.\<close>

function py_replace :: "ustring \<Rightarrow> ustring \<Rightarrow> ustring \<Rightarrow> ustring" where
  "py_replace old new [] = (if old = [] then new else [])"
| "py_replace old new (c # cs) =
     (if old = [] then new @ c # py_replace old new cs
      else if prefix old (c # cs)
           then new @ py_replace old new (drop (length old) (c # cs))
           else c # py_replace old new cs)"
  by pat_completeness auto
termination
  by (relation "measure (\<lambda>(old, new, s). length s)") (auto simp: neq_Nil_conv)

text \<open>
  Both files are read in text mode with the default \<^verbatim>\<open>newline=None\<close>
  (\<^verbatim>\<open>open(env_path, 'r')\<close> and \<^verbatim>\<open>Path.read_text()\<close>): on input, \<^verbatim>\<open>\r\n\<close> and a
  \<^verbatim>\<open>\r\<close> alone are each turned into \<^verbatim>\<open>\n\<close> (code points 13 and 10).
\<close>

fun universal_newlines :: "ustring \<Rightarrow> ustring" where
  "universal_newlines [] = []"
| "universal_newlines [c] = [if c = 13 then 10 else c]"
| "universal_newlines (c # d # cs) =
     (if c = 13 then 10 # universal_newlines (if d = 10 then cs else d # cs)
      else c # universal_newlines (d # cs))"

definition read_text :: "ustring \<Rightarrow> ustring" where
  "read_text contents = universal_newlines contents"

text \<open>Iterating over a text file yields its lines, each with its line end; a last
  line without a line end is yielded when it is not empty.\<close>

fun lines_from :: "ustring \<Rightarrow> ustring \<Rightarrow> ustring list" where
  "lines_from cur [] = (if cur = [] then [] else [cur])"
| "lines_from cur (c # cs) =
     (if c = 10 then (cur @ [c]) # lines_from [] cs else lines_from (cur @ [c]) cs)"

definition file_lines :: "ustring \<Rightarrow> ustring list" where
  "file_lines contents = lines_from [] (universal_newlines contents)"

section \<open>Files, exceptions, the console\<close>

text \<open>
  What the script finds at a path: nothing (\<^verbatim>\<open>exists()\<close> is false), something it
  cannot read (\<^verbatim>\<open>exists()\<close> is true and opening, decoding or reading raises an
  exception with the given message), or a file with the given contents.
\<close>

datatype disk_file = Absent | Unreadable ustring | Content ustring

datatype exn = FileNotFoundError ustring | ReadError ustring

fun str_of :: "exn \<Rightarrow> ustring" where
  "str_of (FileNotFoundError m) = m"
| "str_of (ReadError m) = m"

text \<open>The two output streams, each as the list of the texts written to it;
  \<^verbatim>\<open>print(x)\<close> writes \<open>x\<close> and a line end to standard output. The console is taken
  to accept every text: where it cannot encode a character, \<^verbatim>\<open>print\<close> raises, and
  what the interpreter then writes is not described here.\<close>

record console =
  stdout :: "ustring list"
  stderr :: "ustring list"

definition print :: "ustring \<Rightarrow> console \<Rightarrow> console" where
  "print x c = c\<lparr>stdout := stdout c @ [x]\<rparr>"

definition prints :: "ustring list \<Rightarrow> console \<Rightarrow> console" where
  "prints xs c = foldl (\<lambda>c x. print x c) c xs"


section \<open>load\_env\<close>

type_synonym env = "ustring \<rightharpoonup> ustring"

fun load_env_loop :: "env \<Rightarrow> ustring list \<Rightarrow> env" where
  "load_env_loop env [] = env"
| "load_env_loop env (line # rest) =
     (let line = strip line in
      if line \<noteq> [] \<and> \<not> startswith line (u ''#'')
      then (let parts = split1 61 line in
            if length parts = 2
            then load_env_loop (env(strip (parts ! 0) \<mapsto> strip (parts ! 1))) rest
            else load_env_loop env rest)
      else load_env_loop env rest)"

definition load_env :: "disk_file \<Rightarrow> exn + env" where
  "load_env f =
     (case f of
        Absent \<Rightarrow> Inl (FileNotFoundError (u ''.env file not found''))
      | Unreadable m \<Rightarrow> Inl (ReadError m)
      | Content t \<Rightarrow> Inr (load_env_loop Map.empty (file_lines t)))"

section \<open>extract\_project\_ref\<close>

text \<open>
  \<^verbatim>\<open>re.search(r'https://([^.]+)\.supabase\.co', s)\<close>: the start positions are tried
  from the left. At one position the text must begin with \<^verbatim>\<open>https://\<close>; the group
  \<^verbatim>\<open>[^.]+\<close> is greedy, so it first takes every character up to the next dot and then
  gives characters back one at a time, down to one character, until
  \<^verbatim>\<open>.supabase.co\<close> follows.
\<close>

fun match_group :: "nat \<Rightarrow> ustring \<Rightarrow> ustring option" where
  "match_group 0 s = None"
| "match_group (Suc n) s =
     (if prefix (u ''.supabase.co'') (drop (Suc n) s) then Some (take (Suc n) s)
      else match_group n s)"

definition match_here :: "ustring \<Rightarrow> ustring option" where
  "match_here s =
     (if prefix (u ''https://'') s
      then (let rest = drop 8 s in
            match_group (length (takeWhile (\<lambda>c. c \<noteq> 46) rest)) rest)
      else None)"

fun re_search :: "ustring \<Rightarrow> ustring option" where
  "re_search [] = match_here []"
| "re_search (c # cs) =
     (case match_here (c # cs) of Some g \<Rightarrow> Some g | None \<Rightarrow> re_search cs)"

definition extract_project_ref :: "ustring \<Rightarrow> ustring option" where
  "extract_project_ref supabase_url = re_search supabase_url"

section \<open>main\<close>

text \<open>\<^verbatim>\<open>if not x\<close> for a value that is \<^verbatim>\<open>None\<close> or a string: \<^verbatim>\<open>None\<close> and the
  empty string are false.\<close>

definition truthy :: "ustring option \<Rightarrow> bool" where
  "truthy v = (case v of None \<Rightarrow> False | Some s \<Rightarrow> s \<noteq> [])"

definition rule_line :: ustring where
  "rule_line = replicate 60 9472"

definition callback_url :: "ustring \<Rightarrow> ustring" where
  "callback_url supabase_url =
     py_replace (u ''/rest/v1'') [] supabase_url @ u ''/auth/v1/callback''"

text \<open>Lines 72 to 83: what is printed when the service role key is set.\<close>

definition dashboard_branch :: "ustring \<Rightarrow> ustring list" where
  "dashboard_branch project_ref =
     [ [9989] @ u '' Service role key found'',
       [10, 9888, 65039] @ u ''  Note: Supabase JS/Python clients cannot execute raw SQL directly.'',
       u ''   You have two options:'' @ [10],
       u ''   Option 1: Use Supabase Dashboard (Recommended)'',
       u ''   1. Go to: https://supabase.com/dashboard/project/'' @ project_ref @ u ''/sql/new'',
       u ''   2. Copy and paste the SQL below'',
       u ''   3. Click '' @ [34] @ u ''Run'' @ [34, 10],
       u ''   Option 2: Use Supabase CLI'',
       u ''   1. Install: npm install -g supabase'',
       u ''   2. Login: supabase login'',
       u ''   3. Link: supabase link --project-ref '' @ project_ref,
       u ''   4. Push: supabase db push'' @ [10] ]"

text \<open>Lines 85 to 88: what is printed when it is not.\<close>

definition missing_key_branch :: "ustring list" where
  "missing_key_branch =
     [ [9888, 65039] @ u ''  SUPABASE_SERVICE_ROLE_KEY not found in .env'',
       u ''   Get it from: Settings > API > service_role key'' @ [10],
       u ''   Then add to .env:'',
       u ''   SUPABASE_SERVICE_ROLE_KEY=your_key_here'' @ [10] ]"

text \<open>Lines 68 to 88.\<close>

definition guidance :: "ustring \<Rightarrow> ustring option \<Rightarrow> console \<Rightarrow> console" where
  "guidance project_ref service_role_key c =
     (let c = print ([128221] @ u '' SQL Schema Execution:'') c;
          c = print rule_line c in
      if truthy service_role_key then prints (dashboard_branch project_ref) c
      else prints missing_key_branch c)"

text \<open>Lines 90 to 93.\<close>

definition echo_schema :: "ustring \<Rightarrow> console \<Rightarrow> console" where
  "echo_schema sql c =
     (let c = print ([128203] @ u '' SQL Schema to Execute:'') c;
          c = print rule_line c;
          c = print sql c in
      print rule_line c)"

text \<open>Lines 97 to 116.\<close>

definition oauth_lines :: "ustring \<Rightarrow> ustring \<Rightarrow> ustring list" where
  "oauth_lines project_ref callback =
     [ [10, 128272] @ u '' OAuth Provider Configuration:'',
       rule_line,
       u ''   Configure at: https://supabase.com/dashboard/project/'' @ project_ref
         @ u ''/auth/providers'' @ [10],
       u ''   Required redirect URL for ALL providers:'',
       u ''   '' @ callback @ [10],
       u ''   Providers to configure:'',
       u ''   1. GitHub'',
       u ''   2. Google'',
       u ''   3. Facebook'',
       u ''   4. Twitter (X)'',
       u ''   5. Apple'' @ [10],
       u ''   For each provider:'',
       u ''   - Enable the provider'',
       u ''   - Add Client ID and Client Secret'',
       u ''   - Set redirect URL to: '' @ callback,
       u ''   - Save configuration'',
       rule_line,
       [10, 10024] @ u '' Setup instructions displayed above!'',
       u ''   Once SQL is executed and OAuth is configured, restart the app.'' ]"

text \<open>How the body of the \<^verbatim>\<open>try\<close> ends: it runs to its end, \<^verbatim>\<open>sys.exit(n)\<close>
  leaves it (\<^verbatim>\<open>SystemExit\<close> is no \<^verbatim>\<open>Exception\<close>, so the handler lets it pass), or
  an \<^verbatim>\<open>Exception\<close> is raised.\<close>

datatype flow = Completed | SystemExit int | Raised exn

text \<open>Lines 57 to 116, once the project reference is known.\<close>

definition show_instructions ::
  "ustring \<Rightarrow> ustring \<Rightarrow> ustring option \<Rightarrow> disk_file \<Rightarrow> console \<Rightarrow> flow \<times> console" where
  "show_instructions project_ref supabase_url service_role_key schema_file c =
     (let c = print ([128203] @ u '' Project Reference: '' @ project_ref) c;
          c = print ([128203] @ u '' Supabase URL: '' @ supabase_url @ [10]) c in
      case schema_file of
        Absent \<Rightarrow> (SystemExit 1, print ([10060] @ u '' supabase/schema.sql not found'') c)
      | Unreadable m \<Rightarrow> (Raised (ReadError m), c)
      | Content contents \<Rightarrow>
          (let sql = read_text contents;
               c = guidance project_ref service_role_key c;
               c = echo_schema sql c;
               callback = callback_url supabase_url in
           (Completed, prints (oauth_lines project_ref callback) c)))"

text \<open>Lines 42 to 116: the body of the \<^verbatim>\<open>try\<close>. \<open>the\<close> reads a value that the test
  before it has found to be a string.\<close>

definition main_body :: "disk_file \<Rightarrow> disk_file \<Rightarrow> console \<Rightarrow> flow \<times> console" where
  "main_body env_file schema_file c =
     (let c = print ([128640] @ u '' Supabase Database Setup'' @ [10]) c in
      case load_env env_file of
        Inl e \<Rightarrow> (Raised e, c)
      | Inr env \<Rightarrow>
          (let supabase_url = env (u ''NEXT_PUBLIC_SUPABASE_URL'');
               service_role_key = env (u ''SUPABASE_SERVICE_ROLE_KEY'') in
           if \<not> truthy supabase_url
           then (SystemExit 1,
                 print ([10060] @ u '' NEXT_PUBLIC_SUPABASE_URL not found in .env'') c)
           else (let project_ref = extract_project_ref (the supabase_url) in
                 if \<not> truthy project_ref
                 then (SystemExit 1, print ([10060] @ u '' Invalid Supabase URL format'') c)
                 else show_instructions (the project_ref) (the supabase_url)
                        service_role_key schema_file c)))"

text \<open>The whole run, from an empty console: the exit status of the process and what
  it wrote.\<close>

definition main :: "disk_file \<Rightarrow> disk_file \<Rightarrow> int \<times> console" where
  "main env_file schema_file =
     (case main_body env_file schema_file \<lparr>stdout = [], stderr = []\<rparr> of
        (Completed, c) \<Rightarrow> (0, c)
      | (SystemExit n, c) \<Rightarrow> (n, c)
      | (Raised e, c) \<Rightarrow> (1, print ([10060] @ u '' Error: '' @ str_of e) c))"

definition exit_code :: "int \<times> console \<Rightarrow> int" where
  "exit_code r = fst r"

definition console_of :: "int \<times> console \<Rightarrow> console" where
  "console_of r = snd r"

section \<open>Vocabulary of the properties\<close>

text \<open>A project reference as the URL pattern has it: a segment that is not empty and
  has no dot. \<open>host_url ref\<close> is the URL \<^verbatim>\<open>https://{ref}.supabase.co\<close>.\<close>

definition is_ref :: "ustring \<Rightarrow> bool" where
  "is_ref seg = (seg \<noteq> [] \<and> 46 \<notin> set seg)"

definition host_url :: "ustring \<Rightarrow> ustring" where
  "host_url ref = u ''https://'' @ ref @ u ''.supabase.co''"

text \<open>The whole URL has the expected shape \<^verbatim>\<open>https://{ref}.supabase.co\<close>, with
  nothing before and nothing after: the characters after \<^verbatim>\<open>https://\<close> up to the
  first dot are a project reference, and the URL is the one made from it.\<close>

definition is_host_url :: "ustring \<Rightarrow> bool" where
  "is_host_url url =
     (is_ref (takeWhile (\<lambda>c. c \<noteq> 46) (drop 8 url)) \<and>
      url = host_url (takeWhile (\<lambda>c. c \<noteq> 46) (drop 8 url)))"

text \<open>Following the words of the specification, "with any \<^verbatim>\<open>/rest/v1\<close> suffix
  removed": the text without the given suffix when it ends with it, the text itself
  otherwise.\<close>

definition removesuffix :: "ustring \<Rightarrow> ustring \<Rightarrow> ustring" where
  "removesuffix s suf = (if suffix suf s then take (length s - length suf) s else s)"

text \<open>
  The environment loader in the words of the specification: a line counts when,
  trimmed, it is not empty, does not start with the comment marker \<^verbatim>\<open>#\<close> and has an
  \<^verbatim>\<open>=\<close>; its entry is the trimmed text before the first \<^verbatim>\<open>=\<close> and the trimmed text
  after it; the mapping has the entries of the lines that count, a later line for a key
  replacing an earlier one.
\<close>

definition entry_line :: "ustring \<Rightarrow> bool" where
  "entry_line l =
     (strip l \<noteq> [] \<and> \<not> prefix (u ''#'') (strip l) \<and> 61 \<in> set (strip l))"

definition entry_of :: "ustring \<Rightarrow> ustring \<times> ustring" where
  "entry_of l =
     (strip (takeWhile (\<lambda>c. c \<noteq> 61) (strip l)),
      strip (tl (dropWhile (\<lambda>c. c \<noteq> 61) (strip l))))"

definition spec_env :: "ustring \<Rightarrow> env" where
  "spec_env t = map_of (rev (map entry_of (filter entry_line (file_lines t))))"

text \<open>The parts of the standard output of a run that reaches its end, in their order:
  the lines up to the URL, the guidance of lines 68 to 88, the schema of lines 90 to 93
  (\<open>oauth_lines\<close> follows).\<close>

definition intro_lines :: "ustring \<Rightarrow> ustring \<Rightarrow> ustring list" where
  "intro_lines project_ref supabase_url =
     [ [128640] @ u '' Supabase Database Setup'' @ [10],
       [128203] @ u '' Project Reference: '' @ project_ref,
       [128203] @ u '' Supabase URL: '' @ supabase_url @ [10] ]"

definition guidance_lines :: "ustring \<Rightarrow> ustring option \<Rightarrow> ustring list" where
  "guidance_lines project_ref service_role_key =
     [ [128221] @ u '' SQL Schema Execution:'', rule_line ]
     @ (if truthy service_role_key then dashboard_branch project_ref else missing_key_branch)"

definition schema_lines :: "ustring \<Rightarrow> ustring list" where
  "schema_lines sql = [ [128203] @ u '' SQL Schema to Execute:'', rule_line, sql, rule_line ]"

text \<open>The failures that the specification lists: the configuration file is absent or
  cannot be read, the URL key is absent or empty, the URL does not contain the pattern,
  the schema file is absent or cannot be read.\<close>

definition failure :: "disk_file \<Rightarrow> disk_file \<Rightarrow> bool" where
  "failure env_file schema_file =
     (case load_env env_file of
        Inl e \<Rightarrow> True
      | Inr env \<Rightarrow>
          (case env (u ''NEXT_PUBLIC_SUPABASE_URL'') of
             None \<Rightarrow> True
           | Some url \<Rightarrow>
               url = [] \<or> extract_project_ref url = None
               \<or> (case schema_file of Content sql \<Rightarrow> False | _ \<Rightarrow> True)))"

section \<open>Text: basic facts\<close>

lemma u_append: "u (a @ b) = u a @ u b"
  by (simp add: u_def)

section \<open>The URL parser\<close>

text \<open>Inside the run of characters before the next dot, the literal
  \<^verbatim>\<open>.supabase.co\<close> cannot begin: giving characters back never helps the match.\<close>

lemma length_https: "length (u ''https://'') = 8"
  by (simp add: u_def)

lemma dot_supabase_co: "u ''.supabase.co'' = 46 # u ''supabase.co''"
  by (simp add: u_def)

lemma no_dot_inside_run:
  assumes "k < length (takeWhile (\<lambda>c. c \<noteq> d) s)"
  shows "\<not> prefix (d # r) (drop k s)"
proof
  assume p: "prefix (d # r) (drop k s)"
  let ?t = "takeWhile (\<lambda>c. c \<noteq> d) s"
  have "length ?t \<le> length s"
    by (rule length_takeWhile_le)
  with assms have k: "k < length s" by simp
  from p k have "s ! k = d"
    by (auto simp: prefix_def Cons_nth_drop_Suc [symmetric])
  moreover have "?t ! k = s ! k"
    using assms by (rule takeWhile_nth)
  moreover have "?t ! k \<in> set ?t"
    using assms by simp
  ultimately show False
    by (auto dest: set_takeWhileD)
qed

lemma match_group_run:
  "n \<le> length (takeWhile (\<lambda>c. c \<noteq> 46) s) \<Longrightarrow>
   match_group n s =
     (if 0 < n \<and> n = length (takeWhile (\<lambda>c. c \<noteq> 46) s) \<and> prefix (u ''.supabase.co'') (drop n s)
      then Some (take n s) else None)"
proof (induction n)
  case 0
  show ?case by simp
next
  case (Suc n)
  let ?m = "length (takeWhile (\<lambda>c. c \<noteq> 46) s)"
  from Suc.prems have n: "n < ?m" by simp
  then have "\<not> prefix (u ''.supabase.co'') (drop n s)"
    unfolding dot_supabase_co by (rule no_dot_inside_run)
  with Suc.IH n have ih: "match_group n s = None" by simp
  have e: "match_group (Suc n) s =
      (if prefix (u ''.supabase.co'') (drop (Suc n) s) then Some (take (Suc n) s) else None)"
    using ih by simp
  show ?case
  proof (cases "Suc n = ?m")
    case True
    show ?thesis unfolding True [symmetric] using ih by simp
  next
    case False
    with Suc.prems have "Suc n < ?m" by simp
    then have "\<not> prefix (u ''.supabase.co'') (drop (Suc n) s)"
      unfolding dot_supabase_co by (rule no_dot_inside_run)
    then show ?thesis using ih False by simp
  qed
qed

lemma match_here_run:
  "match_here s =
     (if prefix (u ''https://'') s \<and> takeWhile (\<lambda>c. c \<noteq> 46) (drop 8 s) \<noteq> []
         \<and> prefix (u ''.supabase.co'') (dropWhile (\<lambda>c. c \<noteq> 46) (drop 8 s))
      then Some (takeWhile (\<lambda>c. c \<noteq> 46) (drop 8 s)) else None)"
  by (simp add: match_here_def match_group_run dropWhile_eq_drop [symmetric]
        takeWhile_eq_take [symmetric])

lemma match_here_host:
  assumes "is_ref seg"
  shows "match_here (host_url seg @ post) = Some seg"
proof -
  have d: "drop 8 (host_url seg @ post) = seg @ u ''.supabase.co'' @ post"
    by (simp add: host_url_def length_https)
  have nd: "\<And>x. x \<in> set seg \<Longrightarrow> x \<noteq> 46"
    using assms by (auto simp: is_ref_def)
  have t: "takeWhile (\<lambda>c. c \<noteq> 46) (seg @ u ''.supabase.co'' @ post) = seg"
    using nd by (simp add: dot_supabase_co)
  have w: "dropWhile (\<lambda>c. c \<noteq> 46) (seg @ u ''.supabase.co'' @ post) = u ''.supabase.co'' @ post"
    using nd by (simp add: dot_supabase_co)
  have p: "prefix (u ''https://'') (host_url seg @ post)"
    by (simp add: host_url_def)
  show ?thesis
    unfolding match_here_run d t w using assms p by (simp add: is_ref_def)
qed

lemma match_here_SomeD:
  assumes "match_here s = Some g"
  shows "is_ref g \<and> (\<exists>post. s = host_url g @ post)"
proof -
  let ?r = "drop 8 s"
  from assms have p: "prefix (u ''https://'') s"
    and g: "g = takeWhile (\<lambda>c. c \<noteq> 46) ?r" and ne: "g \<noteq> []"
    and q: "prefix (u ''.supabase.co'') (dropWhile (\<lambda>c. c \<noteq> 46) ?r)"
    by (auto simp: match_here_run split: if_splits)
  from p have s: "s = u ''https://'' @ ?r"
    by (auto simp: prefix_def length_https)
  from q obtain post where "dropWhile (\<lambda>c. c \<noteq> 46) ?r = u ''.supabase.co'' @ post"
    by (auto simp: prefix_def)
  then have "?r = g @ u ''.supabase.co'' @ post"
    using g takeWhile_dropWhile_id [of "\<lambda>c. c \<noteq> 46" ?r] by simp
  with s have "s = host_url g @ post"
    by (simp add: host_url_def)
  moreover have "46 \<notin> set g"
    unfolding g by (auto dest: set_takeWhileD)
  ultimately show ?thesis using ne by (auto simp: is_ref_def)
qed

lemma re_search_here: "match_here s = Some g \<Longrightarrow> re_search s = Some g"
  by (cases s) simp_all

lemma re_search_Some_first:
  "re_search s = Some g \<Longrightarrow>
   \<exists>pre t. s = pre @ t \<and> match_here t = Some g \<and>
     (\<forall>p q. s = p @ q \<and> length p < length pre \<longrightarrow> match_here q = None)"
proof (induction s)
  case Nil
  then show ?case by simp
next
  case (Cons c cs)
  show ?case
  proof (cases "match_here (c # cs)")
    case None
    with Cons.prems have "re_search cs = Some g" by simp
    then obtain pre t where cs: "cs = pre @ t" and t: "match_here t = Some g"
      and first: "\<And>p q. cs = p @ q \<Longrightarrow> length p < length pre \<Longrightarrow> match_here q = None"
      using Cons.IH by blast
    have "match_here q = None" if "c # cs = p @ q" "length p < length (c # pre)" for p q
    proof (cases p)
      case Nil
      with that None show ?thesis by simp
    next
      case (Cons d p')
      with that have "cs = p' @ q" "length p' < length pre" by simp_all
      then show ?thesis by (rule first)
    qed
    with cs t have "c # cs = (c # pre) @ t \<and> match_here t = Some g \<and>
        (\<forall>p q. c # cs = p @ q \<and> length p < length (c # pre) \<longrightarrow> match_here q = None)"
      by simp
    then show ?thesis by blast
  next
    case (Some a)
    with Cons.prems have "match_here (c # cs) = Some g" by simp
    then have "c # cs = [] @ (c # cs) \<and> match_here (c # cs) = Some g \<and>
        (\<forall>p q. c # cs = p @ q \<and> length p < length ([]::ustring) \<longrightarrow> match_here q = None)"
      by simp
    then show ?thesis by blast
  qed
qed

lemma re_search_None_iff:
  "re_search s = None \<longleftrightarrow> (\<forall>pre t. s = pre @ t \<longrightarrow> match_here t = None)"
proof
  assume n: "re_search s = None"
  show "\<forall>pre t. s = pre @ t \<longrightarrow> match_here t = None"
  proof (intro allI impI)
    fix pre t assume s: "s = pre @ t"
    show "match_here t = None"
    proof (rule ccontr)
      assume "match_here t \<noteq> None"
      then obtain g where g: "match_here t = Some g" by auto
      have "\<exists>g'. re_search (pre @ t) = Some g'"
      proof (induction pre)
        case Nil
        show ?case using re_search_here [OF g] by simp
      next
        case (Cons c pre)
        then show ?case by (cases "match_here (c # pre @ t)") auto
      qed
      with n s show False by simp
    qed
  qed
next
  assume a: "\<forall>pre t. s = pre @ t \<longrightarrow> match_here t = None"
  show "re_search s = None"
  proof (rule ccontr)
    assume "re_search s \<noteq> None"
    then obtain g where "re_search s = Some g" by auto
    from re_search_Some_first [OF this] a show False by auto
  qed
qed

lemma extract_project_ref_None_iff:
  "extract_project_ref url = None \<longleftrightarrow>
   \<not> (\<exists>pre seg post. is_ref seg \<and> url = pre @ host_url seg @ post)"
proof
  assume "extract_project_ref url = None"
  then have n: "\<And>pre t. url = pre @ t \<Longrightarrow> match_here t = None"
    by (simp add: extract_project_ref_def re_search_None_iff)
  show "\<not> (\<exists>pre seg post. is_ref seg \<and> url = pre @ host_url seg @ post)"
  proof
    assume "\<exists>pre seg post. is_ref seg \<and> url = pre @ host_url seg @ post"
    then obtain pre seg post where "is_ref seg" "url = pre @ host_url seg @ post" by blast
    with n [of pre "host_url seg @ post"] match_here_host [of seg post] show False by simp
  qed
next
  assume a: "\<not> (\<exists>pre seg post. is_ref seg \<and> url = pre @ host_url seg @ post)"
  have "match_here t = None" if "url = pre @ t" for pre t
  proof (rule ccontr)
    assume "match_here t \<noteq> None"
    then obtain g where "match_here t = Some g" by auto
    from match_here_SomeD [OF this] that a show False by blast
  qed
  then show "extract_project_ref url = None"
    by (simp add: extract_project_ref_def re_search_None_iff)
qed


text \<open>
  C3. For every URL of the shape \<^verbatim>\<open>https://{ref}.supabase.co\<close>, where \<^verbatim>\<open>{ref}\<close> is
  a segment that is not empty and has no dot, \<open>extract_project_ref\<close> returns
  \<^verbatim>\<open>{ref}\<close>; \<^verbatim>\<open>https://abcdefgh.supabase.co\<close> gives \<^verbatim>\<open>abcdefgh\<close>.
\<close>

theorem extract_project_ref_host_url:
  "is_ref ref \<Longrightarrow> extract_project_ref (host_url ref) = Some ref"
proof -
  assume "is_ref ref"
  then have "match_here (host_url ref @ []) = Some ref"
    by (rule match_here_host)
  then show ?thesis
    by (simp add: extract_project_ref_def re_search_here)
qed

theorem extract_project_ref_host_url_witness:
  "is_ref (u ''abcdefgh'') \<and>
   extract_project_ref (u ''https://abcdefgh.supabase.co'') = Some (u ''abcdefgh'')"
  using extract_project_ref_host_url [of "u ''abcdefgh''"]
  by (simp add: is_ref_def host_url_def u_def)

text \<open>
  C9. The pattern is searched for anywhere in the input: whenever the input contains
  \<^verbatim>\<open>https://{seg}.supabase.co\<close> as a substring, for a segment that is not empty and
  has no dot, with any text before and after it, the input has a leftmost such
  occurrence and \<open>extract_project_ref\<close> returns the segment of that one.
\<close>

theorem extract_project_ref_first_occurrence:
  assumes "is_ref seg"
  shows "\<exists>pre' g post'.
           pre @ host_url seg @ post = pre' @ host_url g @ post' \<and> is_ref g \<and>
           (\<forall>p h q. pre @ host_url seg @ post = p @ host_url h @ q \<and> is_ref h
              \<longrightarrow> length pre' \<le> length p) \<and>
           extract_project_ref (pre @ host_url seg @ post) = Some g"
proof -
  let ?s = "pre @ host_url seg @ post"
  have "match_here (host_url seg @ post) = Some seg"
    using assms by (rule match_here_host)
  then have "re_search ?s \<noteq> None"
    unfolding re_search_None_iff by auto
  then obtain g where g: "re_search ?s = Some g" by auto
  from re_search_Some_first [OF g] obtain pre' t
    where s: "?s = pre' @ t" and t: "match_here t = Some g"
      and first: "\<And>p q. ?s = p @ q \<Longrightarrow> length p < length pre' \<Longrightarrow> match_here q = None"
    by blast
  from match_here_SomeD [OF t] obtain post' where rg: "is_ref g" and t': "t = host_url g @ post'"
    by blast
  have "length pre' \<le> length p" if "?s = p @ host_url h @ q" "is_ref h" for p h q
  proof (rule ccontr)
    assume "\<not> length pre' \<le> length p"
    then have "length p < length pre'" by simp
    with that(1) have "match_here (host_url h @ q) = None"
      by (rule first)
    with match_here_host [OF that(2), of q] show False by simp
  qed
  with s t' rg g show ?thesis
    unfolding extract_project_ref_def by blast
qed

theorem extract_project_ref_first_occurrence_witness:
  "is_ref (u ''abc'') \<and>
   (\<exists>pre' g post'.
      u ''see '' @ host_url (u ''abc'') @ u ''/x, not https://zz.supabase.co''
        = pre' @ host_url g @ post' \<and> is_ref g \<and>
      (\<forall>p h q. u ''see '' @ host_url (u ''abc'') @ u ''/x, not https://zz.supabase.co''
           = p @ host_url h @ q \<and> is_ref h \<longrightarrow> length pre' \<le> length p) \<and>
      extract_project_ref
        (u ''see '' @ host_url (u ''abc'') @ u ''/x, not https://zz.supabase.co'') = Some g) \<and>
   extract_project_ref (u ''see https://abc.supabase.co/x, not https://zz.supabase.co'')
     = Some (u ''abc'')"
proof -
  have r: "is_ref (u ''abc'')"
    by (simp add: is_ref_def u_def)
  have "extract_project_ref (u ''see https://abc.supabase.co/x, not https://zz.supabase.co'')
     = Some (u ''abc'')"
    by (simp add: extract_project_ref_def match_here_def u_def)
  with r extract_project_ref_first_occurrence [OF r] show ?thesis
    by blast
qed

section \<open>The callback URL\<close>

lemma py_replace_absent:
  "old \<noteq> [] \<Longrightarrow> \<not> sublist old s \<Longrightarrow> py_replace old new s = s"
proof (induction s)
  case Nil
  then show ?case by simp
next
  case (Cons c cs)
  from Cons.prems(2) have "\<not> prefix old (c # cs)" "\<not> sublist old cs"
    by (auto simp: sublist_Cons_right)
  with Cons show ?case by simp
qed

lemma py_replace_first:
  assumes "old \<noteq> []" and "\<not> sublist old (a @ butlast old)"
  shows "py_replace old new (a @ old @ b) = a @ new @ py_replace old new b"
  using assms(2)
proof (induction a)
  case Nil
  obtain p ps where old: "old = p # ps"
    using assms(1) by (cases old) auto
  have "py_replace old new (old @ b) = new @ py_replace old new (drop (length old) (old @ b))"
    unfolding old by simp
  then show ?case by simp
next
  case (Cons c a)
  from Cons.prems have np: "\<not> prefix old (c # a @ butlast old)"
    and ns: "\<not> sublist old (a @ butlast old)"
    by (auto simp: sublist_Cons_right)
  have "\<not> prefix old (c # a @ old @ b)"
  proof
    assume p: "prefix old (c # a @ old @ b)"
    have "c # a @ old @ b = (c # a @ butlast old) @ (last old # b)"
      using assms(1) by simp
    then have q: "prefix (c # a @ butlast old) (c # a @ old @ b)"
      by (metis prefixI)
    have "length old \<le> length (c # a @ butlast old)"
      by simp
    with p q have "prefix old (c # a @ butlast old)"
      by (rule prefix_length_prefix)
    with np show False ..
  qed
  with assms(1) Cons.IH [OF ns] show ?case by simp
qed

text \<open>The pattern \<^verbatim>\<open>/rest/v1\<close> has no proper border: an occurrence cannot begin
  inside a text and end inside an occurrence that follows this text.\<close>

lemma rest_v1_border_free:
  assumes "prefix (u ''/rest/v1'') (x @ u ''/rest/v'')"
  shows "prefix (u ''/rest/v1'') x"
proof (cases "8 \<le> length x")
  case True
  have "prefix x (x @ u ''/rest/v'')" by simp
  moreover have "length (u ''/rest/v1'') \<le> length x"
    using True by (simp add: u_def)
  ultimately show ?thesis using assms by (rule prefix_length_prefix [rotated])
next
  case False
  let ?k = "length x"
  from assms obtain zs where z: "x @ u ''/rest/v'' = u ''/rest/v1'' @ zs"
    by (auto simp: prefix_def)
  have d: "u ''/rest/v'' = drop ?k (u ''/rest/v1'' @ zs)"
    using arg_cong [OF z, of "drop ?k"] by simp
  from False have "?k = 0 \<or> ?k = 1 \<or> ?k = 2 \<or> ?k = 3 \<or> ?k = 4 \<or> ?k = 5 \<or> ?k = 6 \<or> ?k = 7"
    by arith
  then show ?thesis
  proof (elim disjE)
    assume "?k = 0"
    with z show ?thesis by (simp add: u_def)
  qed (insert d, simp_all add: u_def)
qed

lemma rest_v1_not_across:
  "\<not> sublist (u ''/rest/v1'') a \<Longrightarrow> \<not> sublist (u ''/rest/v1'') (a @ u ''/rest/v'')"
proof (induction a)
  case Nil
  show ?case by (simp add: u_def sublist_Cons_right)
next
  case (Cons c a)
  from Cons.prems have np: "\<not> prefix (u ''/rest/v1'') (c # a)"
    and ns: "\<not> sublist (u ''/rest/v1'') a"
    by (auto simp: sublist_Cons_right)
  have "\<not> prefix (u ''/rest/v1'') ((c # a) @ u ''/rest/v'')"
    using np rest_v1_border_free by blast
  with Cons.IH [OF ns] show ?case
    by (simp add: sublist_Cons_right)
qed

text \<open>
  C1, as amended. The callback URL is the configured URL with every occurrence of
  \<^verbatim>\<open>/rest/v1\<close> removed, wherever it stands (the occurrences are found from the left,
  without overlap), followed by \<^verbatim>\<open>/auth/v1/callback\<close>: a URL without an occurrence
  is kept whole, and a first occurrence is dropped and the rest of the URL treated in
  the same way. The two equations fix the result for every URL.
\<close>

theorem callback_url_every_occurrence:
  "(\<not> sublist (u ''/rest/v1'') url \<longrightarrow> callback_url url = url @ u ''/auth/v1/callback'') \<and>
   (\<not> sublist (u ''/rest/v1'') a \<longrightarrow>
      callback_url (a @ u ''/rest/v1'' @ b) = a @ callback_url b)"
proof (intro conjI impI)
  have ne: "u ''/rest/v1'' \<noteq> []" by (simp add: u_def)
  show "callback_url url = url @ u ''/auth/v1/callback''" if "\<not> sublist (u ''/rest/v1'') url"
    using that ne by (simp add: callback_url_def py_replace_absent)
  show "callback_url (a @ u ''/rest/v1'' @ b) = a @ callback_url b"
    if "\<not> sublist (u ''/rest/v1'') a"
  proof -
    have bl: "butlast (u ''/rest/v1'') = u ''/rest/v''" by (simp add: u_def)
    from that have "\<not> sublist (u ''/rest/v1'') (a @ butlast (u ''/rest/v1''))"
      unfolding bl by (rule rest_v1_not_across)
    with ne have "py_replace (u ''/rest/v1'') [] (a @ u ''/rest/v1'' @ b)
        = a @ [] @ py_replace (u ''/rest/v1'') [] b"
      by (rule py_replace_first)
    then show ?thesis by (simp add: callback_url_def)
  qed
qed

theorem callback_url_every_occurrence_witness:
  "\<not> sublist (u ''/rest/v1'') (u ''https://abc.supabase.co'') \<and>
   callback_url (u ''https://abc.supabase.co'') = u ''https://abc.supabase.co/auth/v1/callback'' \<and>
   callback_url (u ''https://abc.supabase.co/rest/v1/x/rest/v1'')
     = u ''https://abc.supabase.co'' @ callback_url (u ''/x/rest/v1'') \<and>
   callback_url (u ''/x/rest/v1'') = u ''/x/auth/v1/callback''"
proof -
  have n: "\<not> sublist (u ''/rest/v1'') (u ''https://abc.supabase.co'')"
    by (simp add: u_def sublist_Cons_right)
  have m: "\<not> sublist (u ''/rest/v1'') (u ''/x'')"
    by (simp add: u_def sublist_Cons_right)
  have e: "u ''https://abc.supabase.co/rest/v1/x/rest/v1''
      = u ''https://abc.supabase.co'' @ u ''/rest/v1'' @ u ''/x/rest/v1''"
    "u ''/x/rest/v1'' = u ''/x'' @ u ''/rest/v1'' @ []"
    "u ''https://abc.supabase.co'' @ u ''/auth/v1/callback'' = u ''https://abc.supabase.co/auth/v1/callback''"
    "callback_url [] = u ''/auth/v1/callback''"
    "u ''/x'' @ u ''/auth/v1/callback'' = u ''/x/auth/v1/callback''"
    by (simp_all add: u_def callback_url_def)
  from n m show ?thesis
    using callback_url_every_occurrence [of "u ''https://abc.supabase.co''"
        "u ''https://abc.supabase.co''" "u ''/x/rest/v1''"]
      callback_url_every_occurrence [of "[]" "u ''/x''" "[]"]
    unfolding e by simp
qed

text \<open>
  C1, as stated, fails: an occurrence of \<^verbatim>\<open>/rest/v1\<close> that is no suffix is removed
  too. The URL below passes the URL check of the run.
\<close>

theorem callback_url_suffix_only_counterexample:
  "extract_project_ref (u ''https://abc.supabase.co/rest/v1/x'') = Some (u ''abc'') \<and>
   callback_url (u ''https://abc.supabase.co/rest/v1/x'')
     = u ''https://abc.supabase.co/x/auth/v1/callback'' \<and>
   removesuffix (u ''https://abc.supabase.co/rest/v1/x'') (u ''/rest/v1'') @ u ''/auth/v1/callback''
     = u ''https://abc.supabase.co/rest/v1/x/auth/v1/callback'' \<and>
   callback_url (u ''https://abc.supabase.co/rest/v1/x'')
     \<noteq> removesuffix (u ''https://abc.supabase.co/rest/v1/x'') (u ''/rest/v1'')
         @ u ''/auth/v1/callback''"
  by (simp add: callback_url_def removesuffix_def extract_project_ref_def match_here_def
        suffix_def u_def)

section \<open>The environment loader\<close>

text \<open>The lines of a file, put together again, are the file as text mode reads it.\<close>

lemma concat_lines_from: "concat (lines_from cur t) = cur @ t"
  by (induction t arbitrary: cur) auto

lemma concat_file_lines: "concat (file_lines t) = universal_newlines t"
  by (simp add: file_lines_def concat_lines_from)

lemma split1_first:
  "61 \<notin> set k \<Longrightarrow> split1 61 (k @ 61 # v) = [k, v]"
proof -
  assume "61 \<notin> set k"
  then have "\<And>x. x \<in> set k \<Longrightarrow> x \<noteq> 61" by auto
  then show ?thesis
    by (simp add: split1_def)
qed

lemma load_env_loop_step:
  "load_env_loop env (l # rest) =
     load_env_loop (if entry_line l then env(fst (entry_of l) \<mapsto> snd (entry_of l)) else env) rest"
  by (simp add: Let_def startswith_def split1_def entry_line_def entry_of_def)

lemma load_env_loop_map_of:
  "load_env_loop env ls = env ++ map_of (rev (map entry_of (filter entry_line ls)))"
proof (induction ls arbitrary: env)
  case Nil
  show ?case by simp
next
  case (Cons l rest)
  show ?case
  proof (cases "entry_line l")
    case True
    obtain k v where kv: "entry_of l = (k, v)" by (cases "entry_of l")
    have "load_env_loop env (l # rest) = load_env_loop (env(k \<mapsto> v)) rest"
      unfolding load_env_loop_step using True kv by simp
    also have "\<dots> = env(k \<mapsto> v) ++ map_of (rev (map entry_of (filter entry_line rest)))"
      by (rule Cons.IH)
    also have "\<dots> = env ++ map_of (rev (map entry_of (filter entry_line (l # rest))))"
      using True kv by (simp add: map_add_def fun_eq_iff split: option.splits)
    finally show ?thesis .
  next
    case False
    then show ?thesis
      unfolding load_env_loop_step using Cons.IH by simp
  qed
qed

lemma load_env_content: "load_env (Content t) = Inr (spec_env t)"
  by (simp add: load_env_def spec_env_def load_env_loop_map_of)

lemma spec_env_dom:
  "l \<in> set (file_lines t) \<Longrightarrow> entry_line l \<Longrightarrow> fst (entry_of l) \<in> dom (spec_env t)"
proof -
  assume "l \<in> set (file_lines t)" "entry_line l"
  then have "entry_of l \<in> set (rev (map entry_of (filter entry_line (file_lines t))))"
    by simp
  then have "fst (entry_of l) \<in> fst ` set (rev (map entry_of (filter entry_line (file_lines t))))"
    by (rule imageI)
  then show ?thesis
    unfolding spec_env_def dom_map_of_conv_image_fst .
qed

lemma spec_env_SomeD:
  "spec_env t k = Some v \<Longrightarrow> \<exists>l \<in> set (file_lines t). entry_line l \<and> entry_of l = (k, v)"
proof -
  assume "spec_env t k = Some v"
  then have "(k, v) \<in> set (rev (map entry_of (filter entry_line (file_lines t))))"
    unfolding spec_env_def by (rule map_of_SomeD)
  then show ?thesis by auto
qed

lemma spec_env_None:
  "(\<And>l. l \<in> set (file_lines t) \<Longrightarrow> entry_line l \<Longrightarrow> fst (entry_of l) \<noteq> k) \<Longrightarrow> spec_env t k = None"
proof (rule ccontr)
  assume a: "\<And>l. l \<in> set (file_lines t) \<Longrightarrow> entry_line l \<Longrightarrow> fst (entry_of l) \<noteq> k"
  assume "spec_env t k \<noteq> None"
  then obtain v where "spec_env t k = Some v" by auto
  from spec_env_SomeD [OF this] a show False by fastforce
qed

section \<open>The run\<close>

lemma stdout_print [simp]: "stdout (print x c) = stdout c @ [x]"
  and stderr_print [simp]: "stderr (print x c) = stderr c"
  by (simp_all add: print_def)

lemma stdout_prints [simp]: "stdout (prints xs c) = stdout c @ xs"
  unfolding prints_def by (induction xs arbitrary: c) simp_all

lemma stderr_prints [simp]: "stderr (prints xs c) = stderr c"
  unfolding prints_def by (induction xs arbitrary: c) simp_all

lemma print_eq: "print x c = c\<lparr>stdout := stdout c @ [x]\<rparr>"
  by (simp add: print_def)

lemma prints_eq: "prints xs c = c\<lparr>stdout := stdout c @ xs\<rparr>"
  unfolding prints_def by (induction xs arbitrary: c) (simp_all add: print_def)

lemma extract_project_ref_Nil: "extract_project_ref [] = None"
  by (simp add: extract_project_ref_def match_here_def u_def)

lemma extract_project_ref_nonempty: "extract_project_ref url = Some ref \<Longrightarrow> url \<noteq> []"
  using extract_project_ref_Nil by auto

lemma extract_project_ref_SomeD: "extract_project_ref url = Some ref \<Longrightarrow> is_ref ref"
proof -
  assume "extract_project_ref url = Some ref"
  then have "re_search url = Some ref" by (simp add: extract_project_ref_def)
  from re_search_Some_first [OF this] obtain t where "match_here t = Some ref" by blast
  from match_here_SomeD [OF this] show ?thesis by simp
qed

lemma main_env_error:
  "load_env env_file = Inl e \<Longrightarrow>
   main env_file schema_file =
     (1, \<lparr>stdout = [ [128640] @ u '' Supabase Database Setup'' @ [10],
                    [10060] @ u '' Error: '' @ str_of e ],
         stderr = []\<rparr>)"
  by (simp add: main_def main_body_def print_eq)

lemma main_url_missing:
  "load_env env_file = Inr env \<Longrightarrow> \<not> truthy (env (u ''NEXT_PUBLIC_SUPABASE_URL'')) \<Longrightarrow>
   main env_file schema_file =
     (1, \<lparr>stdout = [ [128640] @ u '' Supabase Database Setup'' @ [10],
                    [10060] @ u '' NEXT_PUBLIC_SUPABASE_URL not found in .env'' ],
         stderr = []\<rparr>)"
  by (simp add: main_def main_body_def print_eq)

lemma main_url_invalid:
  "load_env env_file = Inr env \<Longrightarrow> env (u ''NEXT_PUBLIC_SUPABASE_URL'') = Some url \<Longrightarrow>
   url \<noteq> [] \<Longrightarrow> extract_project_ref url = None \<Longrightarrow>
   main env_file schema_file =
     (1, \<lparr>stdout = [ [128640] @ u '' Supabase Database Setup'' @ [10],
                    [10060] @ u '' Invalid Supabase URL format'' ],
         stderr = []\<rparr>)"
  by (simp add: main_def main_body_def print_eq truthy_def)

lemma main_schema_absent:
  "load_env env_file = Inr env \<Longrightarrow> env (u ''NEXT_PUBLIC_SUPABASE_URL'') = Some url \<Longrightarrow>
   extract_project_ref url = Some ref \<Longrightarrow>
   main env_file Absent =
     (1, \<lparr>stdout = intro_lines ref url @ [ [10060] @ u '' supabase/schema.sql not found'' ],
         stderr = []\<rparr>)"
  by (frule extract_project_ref_SomeD, frule extract_project_ref_nonempty)
     (simp add: main_def main_body_def show_instructions_def print_eq truthy_def is_ref_def
        intro_lines_def)

lemma main_schema_unreadable:
  "load_env env_file = Inr env \<Longrightarrow> env (u ''NEXT_PUBLIC_SUPABASE_URL'') = Some url \<Longrightarrow>
   extract_project_ref url = Some ref \<Longrightarrow>
   main env_file (Unreadable m) =
     (1, \<lparr>stdout = intro_lines ref url @ [ [10060] @ u '' Error: '' @ m ],
         stderr = []\<rparr>)"
  by (frule extract_project_ref_SomeD, frule extract_project_ref_nonempty)
     (simp add: main_def main_body_def show_instructions_def print_eq truthy_def is_ref_def
        intro_lines_def)

lemma main_success:
  "load_env env_file = Inr env \<Longrightarrow> env (u ''NEXT_PUBLIC_SUPABASE_URL'') = Some url \<Longrightarrow>
   extract_project_ref url = Some ref \<Longrightarrow>
   main env_file (Content sql) =
     (0, \<lparr>stdout = intro_lines ref url
                    @ guidance_lines ref (env (u ''SUPABASE_SERVICE_ROLE_KEY''))
                    @ schema_lines (read_text sql) @ oauth_lines ref (callback_url url),
         stderr = []\<rparr>)"
  by (frule extract_project_ref_SomeD, frule extract_project_ref_nonempty)
     (simp add: main_def main_body_def show_instructions_def guidance_def echo_schema_def
        print_eq prints_eq truthy_def is_ref_def intro_lines_def guidance_lines_def
        schema_lines_def)

section \<open>Claims about the environment loader\<close>

lemma spec_env_last_wins:
  assumes "file_lines t = before @ l # after" and "entry_line l"
    and "\<And>l'. l' \<in> set after \<Longrightarrow> entry_line l' \<Longrightarrow> fst (entry_of l') \<noteq> fst (entry_of l)"
  shows "spec_env t (fst (entry_of l)) = Some (snd (entry_of l))"
proof -
  let ?E = "\<lambda>ls. map entry_of (filter entry_line ls)"
  have "fst (entry_of l) \<notin> fst ` set (rev (?E after))"
  proof
    assume "fst (entry_of l) \<in> fst ` set (rev (?E after))"
    then obtain l' where "l' \<in> set after" "entry_line l'" "fst (entry_of l') = fst (entry_of l)"
      by (auto simp: image_iff)
    with assms(3) show False by blast
  qed
  then have n: "map_of (rev (?E after)) (fst (entry_of l)) = None"
    by (simp add: map_of_eq_None_iff)
  have "rev (?E (file_lines t)) = rev (?E after) @ entry_of l # rev (?E before)"
    using assms(1,2) by simp
  then have "spec_env t = map_of (entry_of l # rev (?E before)) ++ map_of (rev (?E after))"
    by (simp only: spec_env_def map_of_append)
  then show ?thesis
    using n by (cases "entry_of l") (simp add: map_add_def)
qed

lemma example_env_lines:
  "file_lines (u ''A=1'' @ [10] @ u ''# c'' @ [10, 10] @ u '' B = x=y '' @ [10] @ u ''A=2'')
     = [u ''A=1'' @ [10], u ''# c'' @ [10], [10], u '' B = x=y '' @ [10], u ''A=2'']"
  by (simp add: file_lines_def u_def)

text \<open>
  C8. For every configuration file that exists, \<open>load_env\<close> returns a mapping with an
  entry for each line that is not empty, is no comment and has the form
  \<^verbatim>\<open>KEY=VALUE\<close>, the line being split at its first \<^verbatim>\<open>=\<close> (a value may contain
  \<^verbatim>\<open>=\<close>); blank lines and lines that start with \<^verbatim>\<open>#\<close> are ignored; the run ends
  with an error when the file does not exist. Lines, keys and values are trimmed, the
  key of every line that counts is bound, to the value of the last line with that key,
  and nothing else is bound.
\<close>

theorem load_env_entries:
  "load_env (Content t) = Inr (spec_env t) \<and>
   (\<forall>l \<in> set (file_lines t). entry_line l \<longrightarrow> fst (entry_of l) \<in> dom (spec_env t)) \<and>
   (\<forall>before l after.
      file_lines t = before @ l # after \<and> entry_line l \<and>
      (\<forall>l' \<in> set after. entry_line l' \<longrightarrow> fst (entry_of l') \<noteq> fst (entry_of l))
      \<longrightarrow> spec_env t (fst (entry_of l)) = Some (snd (entry_of l))) \<and>
   (\<forall>k v. spec_env t k = Some v \<longrightarrow>
      (\<exists>l \<in> set (file_lines t). entry_line l \<and> entry_of l = (k, v))) \<and>
   (\<forall>env l rest. strip l = [] \<or> prefix (u ''#'') (strip l) \<longrightarrow>
      load_env_loop env (l # rest) = load_env_loop env rest) \<and>
   (\<forall>k v. 61 \<notin> set k \<longrightarrow> split1 61 (k @ 61 # v) = [k, v]) \<and>
   load_env Absent = Inl (FileNotFoundError (u ''.env file not found'')) \<and>
   exit_code (main Absent schema_file) = 1"
proof (intro conjI)
  show "load_env (Content t) = Inr (spec_env t)"
    by (rule load_env_content)
  show "\<forall>l \<in> set (file_lines t). entry_line l \<longrightarrow> fst (entry_of l) \<in> dom (spec_env t)"
    using spec_env_dom by blast
  show "\<forall>before l after.
      file_lines t = before @ l # after \<and> entry_line l \<and>
      (\<forall>l' \<in> set after. entry_line l' \<longrightarrow> fst (entry_of l') \<noteq> fst (entry_of l))
      \<longrightarrow> spec_env t (fst (entry_of l)) = Some (snd (entry_of l))"
    using spec_env_last_wins by blast
  show "\<forall>k v. spec_env t k = Some v \<longrightarrow>
      (\<exists>l \<in> set (file_lines t). entry_line l \<and> entry_of l = (k, v))"
    using spec_env_SomeD by blast
  show "\<forall>env l rest. strip l = [] \<or> prefix (u ''#'') (strip l) \<longrightarrow>
      load_env_loop env (l # rest) = load_env_loop env rest"
    by (intro allI impI, unfold load_env_loop_step) (auto simp: entry_line_def)
  show "\<forall>k v. 61 \<notin> set k \<longrightarrow> split1 61 (k @ 61 # v) = [k, v]"
    using split1_first by blast
  show "load_env Absent = Inl (FileNotFoundError (u ''.env file not found''))"
    by (simp add: load_env_def)
  then show "exit_code (main Absent schema_file) = 1"
    by (simp add: main_env_error exit_code_def)
qed

theorem load_env_entries_witness:
  "load_env (Content (u ''A=1'' @ [10] @ u ''# c'' @ [10, 10] @ u '' B = x=y '' @ [10] @ u ''A=2''))
     = Inr (spec_env (u ''A=1'' @ [10] @ u ''# c'' @ [10, 10] @ u '' B = x=y '' @ [10] @ u ''A=2'')) \<and>
   spec_env (u ''A=1'' @ [10] @ u ''# c'' @ [10, 10] @ u '' B = x=y '' @ [10] @ u ''A=2'') (u ''A'')
     = Some (u ''2'') \<and>
   spec_env (u ''A=1'' @ [10] @ u ''# c'' @ [10, 10] @ u '' B = x=y '' @ [10] @ u ''A=2'') (u ''B'')
     = Some (u ''x=y'') \<and>
   dom (spec_env (u ''A=1'' @ [10] @ u ''# c'' @ [10, 10] @ u '' B = x=y '' @ [10] @ u ''A=2''))
     = {u ''A'', u ''B''} \<and>
   split1 61 (u ''B=x=y'') = [u ''B'', u ''x=y''] \<and>
   exit_code (main Absent Absent) = 1"
proof -
  let ?t = "u ''A=1'' @ [10] @ u ''# c'' @ [10, 10] @ u '' B = x=y '' @ [10] @ u ''A=2''"
  note th = load_env_entries [of ?t Absent]
  have e: "spec_env ?t = [u ''A'' \<mapsto> u ''2'', u ''B'' \<mapsto> u ''x=y'']"
    unfolding spec_env_def example_env_lines
    by (simp add: entry_line_def entry_of_def strip_def lstrip_def rstrip_def is_space_def u_def
          fun_upd_twist)
  have s: "split1 61 (u ''B=x=y'') = [u ''B'', u ''x=y'']"
    by (simp add: split1_def u_def)
  from th have "load_env (Content ?t) = Inr (spec_env ?t)"
    and "exit_code (main Absent Absent) = 1"
    by blast+
  moreover have "spec_env ?t (u ''A'') = Some (u ''2'')" "spec_env ?t (u ''B'') = Some (u ''x=y'')"
    "dom (spec_env ?t) = {u ''A'', u ''B''}"
    unfolding e by (auto simp: u_def)
  ultimately show ?thesis using s by blast
qed

section \<open>Claims about the checks of the run\<close>

text \<open>
  C6. For every configuration file in which the URL key is missing (no line that counts
  has the key \<^verbatim>\<open>NEXT_PUBLIC_SUPABASE_URL\<close>), the run exits with status 1 and prints an
  error message that names the missing key.
\<close>

theorem missing_url_key_exits_1:
  assumes "\<forall>l \<in> set (file_lines t). entry_line l \<longrightarrow>
             fst (entry_of l) \<noteq> u ''NEXT_PUBLIC_SUPABASE_URL''"
  shows "exit_code (main (Content t) schema_file) = 1 \<and>
         stdout (console_of (main (Content t) schema_file))
           = [ [128640] @ u '' Supabase Database Setup'' @ [10],
               [10060] @ u '' NEXT_PUBLIC_SUPABASE_URL not found in .env'' ] \<and>
         sublist (u ''NEXT_PUBLIC_SUPABASE_URL'')
           (last (stdout (console_of (main (Content t) schema_file))))"
proof -
  have "spec_env t (u ''NEXT_PUBLIC_SUPABASE_URL'') = None"
    using assms by (intro spec_env_None) blast
  then have "\<not> truthy (spec_env t (u ''NEXT_PUBLIC_SUPABASE_URL''))"
    by (simp add: truthy_def)
  with load_env_content have m: "main (Content t) schema_file =
     (1, \<lparr>stdout = [ [128640] @ u '' Supabase Database Setup'' @ [10],
                    [10060] @ u '' NEXT_PUBLIC_SUPABASE_URL not found in .env'' ],
         stderr = []\<rparr>)"
    by (rule main_url_missing)
  have "[10060] @ u '' NEXT_PUBLIC_SUPABASE_URL not found in .env''
      = u8 @ u ''NEXT_PUBLIC_SUPABASE_URL'' @ u '' not found in .env''"
    if "u8 = [10060, 32]" for u8
    using that by (simp add: u_def)
  then have "sublist (u ''NEXT_PUBLIC_SUPABASE_URL'')
      ([10060] @ u '' NEXT_PUBLIC_SUPABASE_URL not found in .env'')"
    unfolding sublist_def by blast
  then show ?thesis
    unfolding m by (simp add: exit_code_def console_of_def)
qed

theorem missing_url_key_exits_1_witness:
  "map (\<lambda>l. (entry_line l, fst (entry_of l)))
     (file_lines (u ''# no URL here'' @ [10] @ u ''SUPABASE_SERVICE_ROLE_KEY=k''))
     = [(False, u ''# no URL here''), (True, u ''SUPABASE_SERVICE_ROLE_KEY'')] \<and>
   exit_code (main (Content (u ''# no URL here'' @ [10] @ u ''SUPABASE_SERVICE_ROLE_KEY=k''))
     (Content (u ''select 1;''))) = 1 \<and>
   stdout (console_of (main (Content (u ''# no URL here'' @ [10] @ u ''SUPABASE_SERVICE_ROLE_KEY=k''))
     (Content (u ''select 1;''))))
     = [ [128640] @ u '' Supabase Database Setup'' @ [10],
         [10060] @ u '' NEXT_PUBLIC_SUPABASE_URL not found in .env'' ]"
proof -
  let ?t = "u ''# no URL here'' @ [10] @ u ''SUPABASE_SERVICE_ROLE_KEY=k''"
  have fl: "file_lines ?t = [u ''# no URL here'' @ [10], u ''SUPABASE_SERVICE_ROLE_KEY=k'']"
    by (simp add: file_lines_def u_def)
  have h: "\<forall>l \<in> set (file_lines ?t). entry_line l \<longrightarrow>
      fst (entry_of l) \<noteq> u ''NEXT_PUBLIC_SUPABASE_URL''"
    unfolding fl
    by (simp add: entry_line_def entry_of_def strip_def lstrip_def rstrip_def is_space_def u_def)
  have k: "map (\<lambda>l. (entry_line l, fst (entry_of l))) (file_lines ?t)
      = [(False, u ''# no URL here''), (True, u ''SUPABASE_SERVICE_ROLE_KEY'')]"
    unfolding fl
    by (simp add: entry_line_def entry_of_def strip_def lstrip_def rstrip_def is_space_def u_def)
  from k missing_url_key_exits_1 [OF h, of "Content (u ''select 1;'')"] show ?thesis
    by blast
qed

lemma is_host_url_iff: "is_host_url url \<longleftrightarrow> (\<exists>ref. is_ref ref \<and> url = host_url ref)"
proof
  assume "is_host_url url"
  then show "\<exists>ref. is_ref ref \<and> url = host_url ref"
    unfolding is_host_url_def by blast
next
  assume "\<exists>ref. is_ref ref \<and> url = host_url ref"
  then obtain ref where r: "is_ref ref" and url: "url = host_url ref" by blast
  from r have nd: "\<And>x. x \<in> set ref \<Longrightarrow> x \<noteq> 46"
    by (auto simp: is_ref_def)
  have "drop 8 url = ref @ u ''.supabase.co''"
    unfolding url by (simp add: host_url_def length_https)
  then have "takeWhile (\<lambda>c. c \<noteq> 46) (drop 8 url) = ref"
    using nd by (simp add: dot_supabase_co)
  with r url show "is_host_url url"
    by (simp add: is_host_url_def)
qed

lemma main_url_accepted:
  assumes "is_ref seg" and "load_env env_file = Inr env"
    and "env (u ''NEXT_PUBLIC_SUPABASE_URL'') = Some (pre @ host_url seg @ post)"
  shows "exit_code (main env_file (Content contents)) = 0"
proof -
  have "match_here (host_url seg @ post) = Some seg"
    using assms(1) by (rule match_here_host)
  then have "re_search (pre @ host_url seg @ post) \<noteq> None"
    unfolding re_search_None_iff by auto
  then obtain ref where "extract_project_ref (pre @ host_url seg @ post) = Some ref"
    by (auto simp: extract_project_ref_def)
  with assms(2,3) show ?thesis
    by (simp add: main_success exit_code_def)
qed

text \<open>
  C7, as amended. For every URL value that contains no text of the form
  \<^verbatim>\<open>https://{seg}.supabase.co\<close> anywhere in it (for a segment that is not empty and
  has no dot), and for no other value, the extraction yields no identifier; a run whose
  configuration binds the URL key to such a value reports an error and exits with
  status 1. The pattern is searched for and not matched against the whole value: a
  value that contains such a text, whatever stands before and after it, is accepted.
\<close>

theorem unmatched_url_exits_1:
  "(extract_project_ref url = None \<longleftrightarrow>
      \<not> (\<exists>pre seg post. is_ref seg \<and> url = pre @ host_url seg @ post)) \<and>
   (\<not> (\<exists>pre seg post. is_ref seg \<and> url = pre @ host_url seg @ post) \<and>
    load_env env_file = Inr env \<and> env (u ''NEXT_PUBLIC_SUPABASE_URL'') = Some url \<longrightarrow>
      exit_code (main env_file schema_file) = 1 \<and>
      stdout (console_of (main env_file schema_file))
        = [ [128640] @ u '' Supabase Database Setup'' @ [10],
            [10060] @ (if url = [] then u '' NEXT_PUBLIC_SUPABASE_URL not found in .env''
                       else u '' Invalid Supabase URL format'') ]) \<and>
   (is_ref seg \<and> load_env env_file = Inr env \<and>
    env (u ''NEXT_PUBLIC_SUPABASE_URL'') = Some (pre @ host_url seg @ post) \<longrightarrow>
      exit_code (main env_file (Content contents)) = 0)"
proof (intro conjI impI)
  show "extract_project_ref url = None \<longleftrightarrow>
      \<not> (\<exists>pre seg post. is_ref seg \<and> url = pre @ host_url seg @ post)"
    by (rule extract_project_ref_None_iff)
next
  assume a: "\<not> (\<exists>pre seg post. is_ref seg \<and> url = pre @ host_url seg @ post) \<and>
    load_env env_file = Inr env \<and> env (u ''NEXT_PUBLIC_SUPABASE_URL'') = Some url"
  then have n: "extract_project_ref url = None"
    by (simp add: extract_project_ref_None_iff)
  from a have l: "load_env env_file = Inr env"
    and e: "env (u ''NEXT_PUBLIC_SUPABASE_URL'') = Some url"
    by simp_all
  have m: "main env_file schema_file =
     (1, \<lparr>stdout = [ [128640] @ u '' Supabase Database Setup'' @ [10],
                    [10060] @ (if url = [] then u '' NEXT_PUBLIC_SUPABASE_URL not found in .env''
                               else u '' Invalid Supabase URL format'') ],
         stderr = []\<rparr>)"
  proof (cases "url = []")
    case True
    with e have "\<not> truthy (env (u ''NEXT_PUBLIC_SUPABASE_URL''))"
      by (simp add: truthy_def)
    with l True show ?thesis
      by (simp add: main_url_missing)
  next
    case False
    with l e n show ?thesis
      by (simp add: main_url_invalid)
  qed
  show "exit_code (main env_file schema_file) = 1"
    and "stdout (console_of (main env_file schema_file))
              = [ [128640] @ u '' Supabase Database Setup'' @ [10],
                  [10060] @ (if url = [] then u '' NEXT_PUBLIC_SUPABASE_URL not found in .env''
                             else u '' Invalid Supabase URL format'') ]"
    unfolding m by (simp_all add: exit_code_def console_of_def)
next
  assume "is_ref seg \<and> load_env env_file = Inr env \<and>
    env (u ''NEXT_PUBLIC_SUPABASE_URL'') = Some (pre @ host_url seg @ post)"
  then show "exit_code (main env_file (Content contents)) = 0"
    using main_url_accepted by blast
qed

theorem unmatched_url_exits_1_witness:
  "\<not> (\<exists>pre seg post. is_ref seg \<and> u ''http://abc.supabase.co'' = pre @ host_url seg @ post) \<and>
   extract_project_ref (u ''http://abc.supabase.co'') = None \<and>
   exit_code (main (Content (u ''NEXT_PUBLIC_SUPABASE_URL=http://abc.supabase.co''))
     (Content (u ''select 1;''))) = 1 \<and>
   stdout (console_of (main (Content (u ''NEXT_PUBLIC_SUPABASE_URL=http://abc.supabase.co''))
     (Content (u ''select 1;''))))
     = [ [128640] @ u '' Supabase Database Setup'' @ [10],
         [10060] @ u '' Invalid Supabase URL format'' ] \<and>
   is_ref (u ''abc'') \<and>
   exit_code (main (Content (u ''NEXT_PUBLIC_SUPABASE_URL=https://abc.supabase.co/rest/v1''))
     (Content (u ''select 1;''))) = 0"
proof -
  let ?t = "u ''NEXT_PUBLIC_SUPABASE_URL=http://abc.supabase.co''"
  let ?t' = "u ''NEXT_PUBLIC_SUPABASE_URL=https://abc.supabase.co/rest/v1''"
  let ?s = "Content (u ''select 1;'')"
  have "extract_project_ref (u ''http://abc.supabase.co'') = None"
    by (simp add: extract_project_ref_def match_here_def u_def)
  then have h: "\<not> (\<exists>pre seg post. is_ref seg \<and>
      u ''http://abc.supabase.co'' = pre @ host_url seg @ post)"
    unfolding extract_project_ref_None_iff .
  have l: "load_env (Content ?t) = Inr (spec_env ?t)" "load_env (Content ?t') = Inr (spec_env ?t')"
    by (rule load_env_content)+
  have e: "spec_env ?t (u ''NEXT_PUBLIC_SUPABASE_URL'') = Some (u ''http://abc.supabase.co'')"
    by (simp add: spec_env_def file_lines_def entry_line_def entry_of_def strip_def lstrip_def
          rstrip_def is_space_def u_def)
  have e': "spec_env ?t' (u ''NEXT_PUBLIC_SUPABASE_URL'')
      = Some ([] @ host_url (u ''abc'') @ u ''/rest/v1'')"
    by (simp add: spec_env_def file_lines_def entry_line_def entry_of_def strip_def lstrip_def
          rstrip_def is_space_def host_url_def u_def)
  have r: "is_ref (u ''abc'')"
    by (simp add: is_ref_def u_def)
  have ne: "u ''http://abc.supabase.co'' \<noteq> []"
    by (simp add: u_def)
  from unmatched_url_exits_1 [of "u ''http://abc.supabase.co''" "Content ?t" "spec_env ?t" ?s
      "u ''abc''" "[]" "u ''/rest/v1''" "u ''select 1;''"] h l(1) e ne
  have a: "extract_project_ref (u ''http://abc.supabase.co'') = None"
    and b: "exit_code (main (Content ?t) ?s) = 1"
    and c: "stdout (console_of (main (Content ?t) ?s))
       = [ [128640] @ u '' Supabase Database Setup'' @ [10],
           [10060] @ u '' Invalid Supabase URL format'' ]"
    by simp_all
  from unmatched_url_exits_1 [of "u ''http://abc.supabase.co''" "Content ?t'" "spec_env ?t'" ?s
      "u ''abc''" "[]" "u ''/rest/v1''" "u ''select 1;''"] r l(2) e'
  have d: "exit_code (main (Content ?t') ?s) = 0"
    by blast
  from h a b c r d show ?thesis by blast
qed

text \<open>
  C7, as stated, fails: a URL that is not of the shape \<^verbatim>\<open>https://{ref}.supabase.co\<close>
  but contains such a text is matched by the search, and the run succeeds.
\<close>

theorem host_pattern_not_anchored_counterexample:
  "\<not> is_host_url (u ''https://abc.supabase.com'') \<and>
   extract_project_ref (u ''https://abc.supabase.com'') = Some (u ''abc'') \<and>
   exit_code (main (Content (u ''NEXT_PUBLIC_SUPABASE_URL=https://abc.supabase.com''))
     (Content (u ''select 1;''))) = 0"
proof -
  let ?t = "u ''NEXT_PUBLIC_SUPABASE_URL=https://abc.supabase.com''"
  have n: "\<not> is_host_url (u ''https://abc.supabase.com'')"
    by (simp add: is_host_url_def is_ref_def host_url_def u_def)
  have x: "extract_project_ref (u ''https://abc.supabase.com'') = Some (u ''abc'')"
    by (simp add: extract_project_ref_def match_here_def u_def)
  have e: "spec_env ?t (u ''NEXT_PUBLIC_SUPABASE_URL'') = Some (u ''https://abc.supabase.com'')"
    by (simp add: spec_env_def file_lines_def entry_line_def entry_of_def strip_def lstrip_def
          rstrip_def is_space_def u_def)
  have "exit_code (main (Content ?t) (Content (u ''select 1;''))) = 0"
    using main_success [OF load_env_content e x] by (simp add: exit_code_def)
  with n x show ?thesis by blast
qed

section \<open>Claims about the whole run\<close>

text \<open>A run that fails prints its error message last, after the banner alone or after
  the lines up to the URL; a run that does not fail had a configuration, a URL with a
  project reference and a schema text.\<close>

lemma main_failure:
  assumes "failure env_file schema_file"
  shows "\<exists>body msg. main env_file schema_file
            = (1, \<lparr>stdout = body @ [[10060] @ msg], stderr = []\<rparr>) \<and>
           (body = [[128640] @ u '' Supabase Database Setup'' @ [10]]
            \<or> (\<exists>ref url. body = intro_lines ref url))"
proof (cases "load_env env_file")
  case (Inl e)
  then show ?thesis
    by (simp add: main_env_error)
next
  case (Inr env)
  show ?thesis
  proof (cases "truthy (env (u ''NEXT_PUBLIC_SUPABASE_URL''))")
    case False
    with Inr show ?thesis
      by (simp add: main_url_missing)
  next
    case True
    then obtain url where url: "env (u ''NEXT_PUBLIC_SUPABASE_URL'') = Some url" "url \<noteq> []"
      by (auto simp: truthy_def split: option.splits)
    show ?thesis
    proof (cases "extract_project_ref url")
      case None
      with Inr url show ?thesis
        by (simp add: main_url_invalid)
    next
      case (Some ref)
      with assms Inr url have "\<forall>sql. schema_file \<noteq> Content sql"
        by (auto simp: failure_def)
      then consider "schema_file = Absent" | m where "schema_file = Unreadable m"
        by (cases schema_file) auto
      then show ?thesis
      proof cases
        case 1
        have "main env_file Absent = (1, \<lparr>stdout = intro_lines ref url
            @ [ [10060] @ u '' supabase/schema.sql not found'' ], stderr = []\<rparr>)"
          using Inr url(1) Some by (rule main_schema_absent)
        with 1 show ?thesis by blast
      next
        case 2
        have "main env_file (Unreadable m) = (1, \<lparr>stdout = intro_lines ref url
            @ [ [10060] @ u '' Error: '' @ m ], stderr = []\<rparr>)"
          using Inr url(1) Some by (rule main_schema_unreadable)
        with 2 show ?thesis by blast
      qed
    qed
  qed
qed

lemma main_no_failure:
  assumes "\<not> failure env_file schema_file"
  shows "\<exists>env url ref sql. load_env env_file = Inr env \<and>
           env (u ''NEXT_PUBLIC_SUPABASE_URL'') = Some url \<and> url \<noteq> [] \<and>
           extract_project_ref url = Some ref \<and> schema_file = Content sql"
  using assms
  by (auto simp: failure_def split: sum.splits option.splits disk_file.splits)

lemma main_exit_code: "exit_code (main env_file schema_file) = (if failure env_file schema_file then 1 else 0)"
proof (cases "failure env_file schema_file")
  case True
  from main_failure [OF True] show ?thesis
    using True by (auto simp: exit_code_def)
next
  case False
  from main_no_failure [OF False] obtain env url ref sql
    where "load_env env_file = Inr env" "env (u ''NEXT_PUBLIC_SUPABASE_URL'') = Some url"
      "extract_project_ref url = Some ref" "url \<noteq> []" "schema_file = Content sql"
    by blast
  then show ?thesis
    using False by (simp add: main_success exit_code_def)
qed

lemma main_success_stdout:
  assumes "\<not> failure env_file schema_file"
  shows "\<exists>env url ref sql. load_env env_file = Inr env \<and>
           env (u ''NEXT_PUBLIC_SUPABASE_URL'') = Some url \<and>
           extract_project_ref url = Some ref \<and> schema_file = Content sql \<and>
           stdout (console_of (main env_file schema_file))
             = intro_lines ref url @ guidance_lines ref (env (u ''SUPABASE_SERVICE_ROLE_KEY''))
               @ schema_lines (read_text sql) @ oauth_lines ref (callback_url url)"
proof -
  from main_no_failure [OF assms] obtain env url ref sql
    where h: "load_env env_file = Inr env" "env (u ''NEXT_PUBLIC_SUPABASE_URL'') = Some url"
      "extract_project_ref url = Some ref" "url \<noteq> []" and s: "schema_file = Content sql"
    by blast
  from h(1-3) have "main env_file (Content sql) = (0, \<lparr>stdout = intro_lines ref url
      @ guidance_lines ref (env (u ''SUPABASE_SERVICE_ROLE_KEY''))
      @ schema_lines (read_text sql) @ oauth_lines ref (callback_url url), stderr = []\<rparr>)"
    by (rule main_success)
  with h s show ?thesis
    by (auto simp: console_of_def)
qed

lemma example_env:
  "spec_env (u ''NEXT_PUBLIC_SUPABASE_URL=https://abc.supabase.co'') (u ''NEXT_PUBLIC_SUPABASE_URL'')
     = Some (u ''https://abc.supabase.co'')"
  "spec_env (u ''NEXT_PUBLIC_SUPABASE_URL=https://abc.supabase.co'') (u ''SUPABASE_SERVICE_ROLE_KEY'')
     = None"
  by (simp_all add: spec_env_def file_lines_def entry_line_def entry_of_def strip_def lstrip_def
        rstrip_def is_space_def u_def)

lemma example_ref: "extract_project_ref (u ''https://abc.supabase.co'') = Some (u ''abc'')"
  by (simp add: extract_project_ref_def match_here_def u_def)

lemma example_url_nonempty: "u ''https://abc.supabase.co'' \<noteq> []"
  by (simp add: u_def)

text \<open>
  C2, as amended. For every run, the formatted instructions, the echoed SQL and the
  error messages as well are written to standard output; the exit code is 0 on success
  and 1 on any handled failure. A failing run has its error message as the last text on
  standard output, a successful run the instructions with the schema as read.
\<close>

theorem all_output_on_stdout:
  "exit_code (main env_file schema_file) = (if failure env_file schema_file then 1 else 0) \<and>
   (failure env_file schema_file \<longrightarrow>
      (\<exists>msg. last (stdout (console_of (main env_file schema_file))) = [10060] @ msg)) \<and>
   (\<not> failure env_file schema_file \<longrightarrow>
      (\<exists>env url ref sql.
         load_env env_file = Inr env \<and> env (u ''NEXT_PUBLIC_SUPABASE_URL'') = Some url \<and>
         extract_project_ref url = Some ref \<and> schema_file = Content sql \<and>
         stdout (console_of (main env_file schema_file))
           = intro_lines ref url @ guidance_lines ref (env (u ''SUPABASE_SERVICE_ROLE_KEY''))
             @ schema_lines (read_text sql) @ oauth_lines ref (callback_url url)))"
proof (intro conjI impI)
  show "exit_code (main env_file schema_file) = (if failure env_file schema_file then 1 else 0)"
    by (rule main_exit_code)
  show "\<exists>msg. last (stdout (console_of (main env_file schema_file))) = [10060] @ msg"
    if "failure env_file schema_file"
    using main_failure [OF that] by (auto simp: console_of_def)
  show "\<exists>env url ref sql.
         load_env env_file = Inr env \<and> env (u ''NEXT_PUBLIC_SUPABASE_URL'') = Some url \<and>
         extract_project_ref url = Some ref \<and> schema_file = Content sql \<and>
         stdout (console_of (main env_file schema_file))
           = intro_lines ref url @ guidance_lines ref (env (u ''SUPABASE_SERVICE_ROLE_KEY''))
             @ schema_lines (read_text sql) @ oauth_lines ref (callback_url url)"
    if "\<not> failure env_file schema_file"
    using that by (rule main_success_stdout)
qed

theorem all_output_on_stdout_witness:
  "failure Absent Absent \<and>
   exit_code (main Absent Absent) = 1 \<and>
   \<not> failure (Content (u ''NEXT_PUBLIC_SUPABASE_URL=https://abc.supabase.co''))
       (Content (u ''select 1;'')) \<and>
   exit_code (main (Content (u ''NEXT_PUBLIC_SUPABASE_URL=https://abc.supabase.co''))
       (Content (u ''select 1;''))) = 0"
proof -
  have f: "failure Absent Absent"
    by (simp add: failure_def load_env_def)
  have g: "\<not> failure (Content (u ''NEXT_PUBLIC_SUPABASE_URL=https://abc.supabase.co''))
       (Content (u ''select 1;''))"
    by (simp add: failure_def load_env_content example_env example_ref example_url_nonempty)
  from f g all_output_on_stdout [of Absent Absent]
    all_output_on_stdout [of "Content (u ''NEXT_PUBLIC_SUPABASE_URL=https://abc.supabase.co'')"
      "Content (u ''select 1;'')"]
  show ?thesis by simp
qed

text \<open>
  C2, as stated, fails: the error message of a run without a configuration file is on
  standard output, and standard error stays empty.
\<close>

theorem errors_on_stderr_counterexample:
  "[10060] @ u '' Error: .env file not found'' \<in> set (stdout (console_of (main Absent Absent))) \<and>
   [10060] @ u '' Error: .env file not found'' \<notin> set (stderr (console_of (main Absent Absent))) \<and>
   stderr (console_of (main Absent Absent)) = [] \<and>
   exit_code (main Absent Absent) = 1"
  by (simp add: main_def main_body_def load_env_def print_eq console_of_def exit_code_def u_def)

section \<open>Claims about what is printed\<close>










lemma example_sql: "read_text (u ''select 1;'') = u ''select 1;''"
  by (simp add: read_text_def u_def)




text \<open>The lines of the two guidance branches begin with other characters than the lines
  of a failing run, and no line stands in both branches.\<close>

lemma branches_disjoint: "set (dashboard_branch ref) \<inter> set missing_key_branch = {}"
  by (simp add: dashboard_branch_def missing_key_branch_def u_def)

lemma branch_heads:
  "y \<in> set (dashboard_branch ref) \<union> set missing_key_branch \<Longrightarrow> hd y \<in> {9989, 10, 32, 9888}"
  by (auto simp: dashboard_branch_def missing_key_branch_def u_def)

lemma failure_heads:
  assumes "failure env_file schema_file"
    and "x \<in> set (stdout (console_of (main env_file schema_file)))"
  shows "hd x \<in> {128640, 128203, 10060}"
proof -
  from main_failure [OF assms(1)] obtain body msg
    where m: "main env_file schema_file = (1, \<lparr>stdout = body @ [[10060] @ msg], stderr = []\<rparr>)"
      and b: "body = [[128640] @ u '' Supabase Database Setup'' @ [10]]
            \<or> (\<exists>ref url. body = intro_lines ref url)"
    by blast
  from b have "\<forall>y \<in> set body. hd y \<in> {128640, 128203, 10060}"
    by (auto simp: intro_lines_def)
  with assms(2) show ?thesis
    unfolding m by (auto simp: console_of_def)
qed

lemma guidance_stdout:
  "stdout (guidance ref key c) = stdout c @ guidance_lines ref key"
  by (simp add: guidance_def guidance_lines_def)

lemma example_env_key:
  "spec_env (u ''NEXT_PUBLIC_SUPABASE_URL=https://abc.supabase.co'' @ [10]
       @ u ''SUPABASE_SERVICE_ROLE_KEY=k'') (u ''NEXT_PUBLIC_SUPABASE_URL'')
     = Some (u ''https://abc.supabase.co'')"
  "spec_env (u ''NEXT_PUBLIC_SUPABASE_URL=https://abc.supabase.co'' @ [10]
       @ u ''SUPABASE_SERVICE_ROLE_KEY=k'') (u ''SUPABASE_SERVICE_ROLE_KEY'')
     = Some (u ''k'')"
  by (simp_all add: spec_env_def file_lines_def entry_line_def entry_of_def strip_def lstrip_def
        rstrip_def is_space_def u_def)

text \<open>
  C5, as amended. In every run that reaches the guidance step (the configuration is
  loaded, the URL is present and has a project reference, the schema file is read),
  that step prints exactly one of the two guidance branches: the dashboard-and-CLI
  branch if the secret value is present and not empty, the missing-key branch
  otherwise; no line stands in both branches. A run that stops earlier prints no line
  of either branch.
\<close>

theorem guidance_branch_exclusive:
  "set (dashboard_branch ref) \<inter> set missing_key_branch = {} \<and>
   stdout (guidance ref key c)
     = stdout c @ [ [128221] @ u '' SQL Schema Execution:'', rule_line ]
       @ (if truthy key then dashboard_branch ref else missing_key_branch) \<and>
   (load_env env_file = Inr env \<and> env (u ''NEXT_PUBLIC_SUPABASE_URL'') = Some url \<and>
    extract_project_ref url = Some ref \<longrightarrow>
      stdout (console_of (main env_file (Content sql)))
        = intro_lines ref url @ [ [128221] @ u '' SQL Schema Execution:'', rule_line ]
          @ (if truthy (env (u ''SUPABASE_SERVICE_ROLE_KEY''))
             then dashboard_branch ref else missing_key_branch)
          @ schema_lines (read_text sql) @ oauth_lines ref (callback_url url)) \<and>
   (failure env_file schema_file \<longrightarrow>
      set (stdout (console_of (main env_file schema_file)))
        \<inter> (set (dashboard_branch r) \<union> set missing_key_branch) = {})"
proof (intro conjI impI)
  show "set (dashboard_branch ref) \<inter> set missing_key_branch = {}"
    by (rule branches_disjoint)
  show "stdout (guidance ref key c)
     = stdout c @ [ [128221] @ u '' SQL Schema Execution:'', rule_line ]
       @ (if truthy key then dashboard_branch ref else missing_key_branch)"
    by (simp add: guidance_stdout guidance_lines_def)
next
  assume "load_env env_file = Inr env \<and> env (u ''NEXT_PUBLIC_SUPABASE_URL'') = Some url \<and>
    extract_project_ref url = Some ref"
  then have "main env_file (Content sql) = (0, \<lparr>stdout = intro_lines ref url
      @ guidance_lines ref (env (u ''SUPABASE_SERVICE_ROLE_KEY''))
      @ schema_lines (read_text sql) @ oauth_lines ref (callback_url url), stderr = []\<rparr>)"
    by (intro main_success) simp_all
  then show "stdout (console_of (main env_file (Content sql)))
        = intro_lines ref url @ [ [128221] @ u '' SQL Schema Execution:'', rule_line ]
          @ (if truthy (env (u ''SUPABASE_SERVICE_ROLE_KEY''))
             then dashboard_branch ref else missing_key_branch)
          @ schema_lines (read_text sql) @ oauth_lines ref (callback_url url)"
    by (simp add: console_of_def guidance_lines_def)
next
  assume f: "failure env_file schema_file"
  show "set (stdout (console_of (main env_file schema_file)))
        \<inter> (set (dashboard_branch r) \<union> set missing_key_branch) = {}"
  proof (rule ccontr)
    assume "set (stdout (console_of (main env_file schema_file)))
        \<inter> (set (dashboard_branch r) \<union> set missing_key_branch) \<noteq> {}"
    then obtain x where x: "x \<in> set (stdout (console_of (main env_file schema_file)))"
      and y: "x \<in> set (dashboard_branch r) \<union> set missing_key_branch"
      by blast
    from failure_heads [OF f x] branch_heads [OF y] show False
      by auto
  qed
qed

theorem guidance_branch_exclusive_witness:
  "stdout (console_of (main (Content (u ''NEXT_PUBLIC_SUPABASE_URL=https://abc.supabase.co'' @ [10]
       @ u ''SUPABASE_SERVICE_ROLE_KEY=k'')) (Content (u ''select 1;''))))
     = intro_lines (u ''abc'') (u ''https://abc.supabase.co'')
       @ [ [128221] @ u '' SQL Schema Execution:'', rule_line ]
       @ dashboard_branch (u ''abc'')
       @ schema_lines (u ''select 1;'')
       @ oauth_lines (u ''abc'') (callback_url (u ''https://abc.supabase.co'')) \<and>
   stdout (console_of (main (Content (u ''NEXT_PUBLIC_SUPABASE_URL=https://abc.supabase.co''))
       (Content (u ''select 1;''))))
     = intro_lines (u ''abc'') (u ''https://abc.supabase.co'')
       @ [ [128221] @ u '' SQL Schema Execution:'', rule_line ]
       @ missing_key_branch
       @ schema_lines (u ''select 1;'')
       @ oauth_lines (u ''abc'') (callback_url (u ''https://abc.supabase.co'')) \<and>
   failure Absent Absent \<and>
   set (stdout (console_of (main Absent Absent)))
     \<inter> (set (dashboard_branch (u ''abc'')) \<union> set missing_key_branch) = {}"
proof -
  let ?t1 = "u ''NEXT_PUBLIC_SUPABASE_URL=https://abc.supabase.co'' @ [10]
       @ u ''SUPABASE_SERVICE_ROLE_KEY=k''"
  let ?t2 = "u ''NEXT_PUBLIC_SUPABASE_URL=https://abc.supabase.co''"
  let ?url = "u ''https://abc.supabase.co''"
  let ?c = "\<lparr>stdout = [], stderr = []\<rparr>"
  have k: "truthy (spec_env ?t1 (u ''SUPABASE_SERVICE_ROLE_KEY''))"
    "\<not> truthy (spec_env ?t2 (u ''SUPABASE_SERVICE_ROLE_KEY''))"
    unfolding example_env_key example_env by (simp_all add: truthy_def u_def)
  have f: "failure Absent Absent"
    by (simp add: failure_def load_env_def)
  have h1: "load_env (Content ?t1) = Inr (spec_env ?t1) \<and>
      spec_env ?t1 (u ''NEXT_PUBLIC_SUPABASE_URL'') = Some ?url \<and>
      extract_project_ref ?url = Some (u ''abc'')"
    using load_env_content example_env_key(1) example_ref by blast
  have h2: "load_env (Content ?t2) = Inr (spec_env ?t2) \<and>
      spec_env ?t2 (u ''NEXT_PUBLIC_SUPABASE_URL'') = Some ?url \<and>
      extract_project_ref ?url = Some (u ''abc'')"
    using load_env_content example_env(1) example_ref by blast
  from guidance_branch_exclusive [of "u ''abc''" None ?c "Content ?t1" "spec_env ?t1" ?url
      "u ''select 1;''" Absent "u ''abc''", unfolded example_sql] h1
  have "stdout (console_of (main (Content ?t1) (Content (u ''select 1;''))))
      = intro_lines (u ''abc'') ?url @ [ [128221] @ u '' SQL Schema Execution:'', rule_line ]
        @ (if truthy (spec_env ?t1 (u ''SUPABASE_SERVICE_ROLE_KEY''))
           then dashboard_branch (u ''abc'') else missing_key_branch)
        @ schema_lines (u ''select 1;'') @ oauth_lines (u ''abc'') (callback_url ?url)"
    by blast
  with k(1) have s1: "stdout (console_of (main (Content ?t1) (Content (u ''select 1;''))))
      = intro_lines (u ''abc'') ?url @ [ [128221] @ u '' SQL Schema Execution:'', rule_line ]
        @ dashboard_branch (u ''abc'')
        @ schema_lines (u ''select 1;'') @ oauth_lines (u ''abc'') (callback_url ?url)"
    by (simp only: if_True)
  from guidance_branch_exclusive [of "u ''abc''" None ?c "Content ?t2" "spec_env ?t2" ?url
      "u ''select 1;''" Absent "u ''abc''", unfolded example_sql] h2
  have "stdout (console_of (main (Content ?t2) (Content (u ''select 1;''))))
      = intro_lines (u ''abc'') ?url @ [ [128221] @ u '' SQL Schema Execution:'', rule_line ]
        @ (if truthy (spec_env ?t2 (u ''SUPABASE_SERVICE_ROLE_KEY''))
           then dashboard_branch (u ''abc'') else missing_key_branch)
        @ schema_lines (u ''select 1;'') @ oauth_lines (u ''abc'') (callback_url ?url)"
    by blast
  with k(2) have s2: "stdout (console_of (main (Content ?t2) (Content (u ''select 1;''))))
      = intro_lines (u ''abc'') ?url @ [ [128221] @ u '' SQL Schema Execution:'', rule_line ]
        @ missing_key_branch
        @ schema_lines (u ''select 1;'') @ oauth_lines (u ''abc'') (callback_url ?url)"
    by (simp only: if_False)
  from guidance_branch_exclusive [of "u ''abc''" None ?c Absent Map.empty ?url
      "u ''select 1;''" Absent "u ''abc''", unfolded example_sql] f
  have s3: "set (stdout (console_of (main Absent Absent)))
     \<inter> (set (dashboard_branch (u ''abc'')) \<union> set missing_key_branch) = {}"
    by blast
  from s1 s2 f s3 show ?thesis by blast
qed

text \<open>
  C5, as stated, fails for a run that stops before the guidance step: with the secret
  value present and the schema file absent, neither branch is printed.
\<close>

theorem guidance_every_run_counterexample:
  "truthy (spec_env (u ''NEXT_PUBLIC_SUPABASE_URL=https://abc.supabase.co'' @ [10]
       @ u ''SUPABASE_SERVICE_ROLE_KEY=k'') (u ''SUPABASE_SERVICE_ROLE_KEY'')) \<and>
   main (Content (u ''NEXT_PUBLIC_SUPABASE_URL=https://abc.supabase.co'' @ [10]
       @ u ''SUPABASE_SERVICE_ROLE_KEY=k'')) Absent
     = (1, \<lparr>stdout = [ [128640] @ u '' Supabase Database Setup'' @ [10],
                     [128203] @ u '' Project Reference: abc'',
                     [128203] @ u '' Supabase URL: https://abc.supabase.co'' @ [10],
                     [10060] @ u '' supabase/schema.sql not found'' ],
            stderr = []\<rparr>) \<and>
   \<not> sublist (dashboard_branch (u ''abc''))
       (stdout (console_of (main (Content (u ''NEXT_PUBLIC_SUPABASE_URL=https://abc.supabase.co''
          @ [10] @ u ''SUPABASE_SERVICE_ROLE_KEY=k'')) Absent))) \<and>
   \<not> sublist missing_key_branch
       (stdout (console_of (main (Content (u ''NEXT_PUBLIC_SUPABASE_URL=https://abc.supabase.co''
          @ [10] @ u ''SUPABASE_SERVICE_ROLE_KEY=k'')) Absent)))"
proof -
  let ?t1 = "u ''NEXT_PUBLIC_SUPABASE_URL=https://abc.supabase.co'' @ [10]
       @ u ''SUPABASE_SERVICE_ROLE_KEY=k''"
  have m: "main (Content ?t1) Absent
     = (1, \<lparr>stdout = [ [128640] @ u '' Supabase Database Setup'' @ [10],
                     [128203] @ u '' Project Reference: abc'',
                     [128203] @ u '' Supabase URL: https://abc.supabase.co'' @ [10],
                     [10060] @ u '' supabase/schema.sql not found'' ],
            stderr = []\<rparr>)"
    using main_schema_absent [OF load_env_content example_env_key(1) example_ref]
    by (simp add: intro_lines_def u_def)
  have l: "length (dashboard_branch (u ''abc'')) = 12" "length missing_key_branch = 4"
    by (simp_all add: dashboard_branch_def missing_key_branch_def)
  have "\<not> sublist (dashboard_branch (u ''abc'')) (stdout (console_of (main (Content ?t1) Absent)))"
    using l(1) unfolding m by (auto simp: console_of_def dest: sublist_length_le)
  moreover have "\<not> sublist missing_key_branch (stdout (console_of (main (Content ?t1) Absent)))"
    unfolding m
    by (simp add: console_of_def missing_key_branch_def sublist_Cons_right u_def)
  moreover have "truthy (spec_env ?t1 (u ''SUPABASE_SERVICE_ROLE_KEY''))"
    unfolding example_env_key by (simp add: truthy_def u_def)
  ultimately show ?thesis using m by blast
qed

section \<open>Empty values\<close>

text \<open>The run reads the configuration through two tests only: whether the URL is a
  string that is not empty (and then the URL itself), and whether the secret is one.\<close>

lemma main_env_cong:
  assumes "load_env env_file = Inr env" and "load_env env_file' = Inr env'"
    and "truthy (env (u ''NEXT_PUBLIC_SUPABASE_URL''))
           = truthy (env' (u ''NEXT_PUBLIC_SUPABASE_URL''))"
    and "truthy (env (u ''NEXT_PUBLIC_SUPABASE_URL'')) \<Longrightarrow>
           env (u ''NEXT_PUBLIC_SUPABASE_URL'') = env' (u ''NEXT_PUBLIC_SUPABASE_URL'')"
    and "truthy (env (u ''SUPABASE_SERVICE_ROLE_KEY''))
           = truthy (env' (u ''SUPABASE_SERVICE_ROLE_KEY''))"
  shows "main env_file schema_file = main env_file' schema_file"
proof -
  have "main_body env_file schema_file c = main_body env_file' schema_file c" for c
    using assms
    by (simp add: main_body_def show_instructions_def guidance_def Let_def
          split: disk_file.splits)
  then show ?thesis
    by (simp add: main_def)
qed

lemma url_key_differ: "u ''NEXT_PUBLIC_SUPABASE_URL'' \<noteq> u ''SUPABASE_SERVICE_ROLE_KEY''"
  by (simp add: u_def)

lemma example_env_empty:
  "spec_env (u ''NEXT_PUBLIC_SUPABASE_URL='') = [u ''NEXT_PUBLIC_SUPABASE_URL'' \<mapsto> []]"
  "spec_env [] = Map.empty"
  "spec_env (u ''NEXT_PUBLIC_SUPABASE_URL=https://abc.supabase.co'' @ [10]
       @ u ''SUPABASE_SERVICE_ROLE_KEY='')
     = [u ''NEXT_PUBLIC_SUPABASE_URL'' \<mapsto> u ''https://abc.supabase.co'',
        u ''SUPABASE_SERVICE_ROLE_KEY'' \<mapsto> []]"
  by (simp_all add: spec_env_def file_lines_def entry_line_def entry_of_def strip_def lstrip_def
        rstrip_def is_space_def u_def)

text \<open>
  C10. A key that the configuration file binds to the empty string is treated as if it
  were absent: the run is the same as with the key removed, for the URL key and for
  the secret key; an empty URL value gives the missing-URL-key error and exit status 1,
  and an empty secret value selects the missing-key guidance branch.
\<close>

theorem empty_value_as_absent:
  "(load_env env_file = Inr env \<and> load_env env_file' = Inr env' \<and>
    env k = Some [] \<and> env' = env(k := None) \<and>
    (k = u ''NEXT_PUBLIC_SUPABASE_URL'' \<or> k = u ''SUPABASE_SERVICE_ROLE_KEY'')
    \<longrightarrow> main env_file schema_file = main env_file' schema_file) \<and>
   (load_env env_file = Inr env \<and> env (u ''NEXT_PUBLIC_SUPABASE_URL'') = Some [] \<longrightarrow>
      exit_code (main env_file schema_file) = 1 \<and>
      stdout (console_of (main env_file schema_file))
        = [ [128640] @ u '' Supabase Database Setup'' @ [10],
            [10060] @ u '' NEXT_PUBLIC_SUPABASE_URL not found in .env'' ]) \<and>
   (load_env env_file = Inr env \<and> env (u ''SUPABASE_SERVICE_ROLE_KEY'') = Some [] \<and>
    env (u ''NEXT_PUBLIC_SUPABASE_URL'') = Some url \<and> extract_project_ref url = Some ref \<longrightarrow>
      stdout (console_of (main env_file (Content sql)))
        = intro_lines ref url @ [ [128221] @ u '' SQL Schema Execution:'', rule_line ]
          @ missing_key_branch @ schema_lines (read_text sql) @ oauth_lines ref (callback_url url))"
proof (intro conjI impI)
  assume a: "load_env env_file = Inr env \<and> load_env env_file' = Inr env' \<and>
    env k = Some [] \<and> env' = env(k := None) \<and>
    (k = u ''NEXT_PUBLIC_SUPABASE_URL'' \<or> k = u ''SUPABASE_SERVICE_ROLE_KEY'')"
  then have l: "load_env env_file = Inr env" "load_env env_file' = Inr env'"
    and k: "env k = Some []" and e: "env' = env(k := None)"
    and c: "k = u ''NEXT_PUBLIC_SUPABASE_URL'' \<or> k = u ''SUPABASE_SERVICE_ROLE_KEY''"
    by simp_all
  from c show "main env_file schema_file = main env_file' schema_file"
  proof
    assume "k = u ''NEXT_PUBLIC_SUPABASE_URL''"
    with k e url_key_differ show ?thesis
      by (intro main_env_cong [OF l]) (simp_all add: truthy_def)
  next
    assume "k = u ''SUPABASE_SERVICE_ROLE_KEY''"
    with k e url_key_differ show ?thesis
      by (intro main_env_cong [OF l]) (simp_all add: truthy_def)
  qed
next
  assume a: "load_env env_file = Inr env \<and> env (u ''NEXT_PUBLIC_SUPABASE_URL'') = Some []"
  then have l: "load_env env_file = Inr env"
    and nt: "\<not> truthy (env (u ''NEXT_PUBLIC_SUPABASE_URL''))"
    by (simp_all add: truthy_def)
  have m: "main env_file schema_file =
     (1, \<lparr>stdout = [ [128640] @ u '' Supabase Database Setup'' @ [10],
                    [10060] @ u '' NEXT_PUBLIC_SUPABASE_URL not found in .env'' ],
         stderr = []\<rparr>)"
    using l nt by (rule main_url_missing)
  show "exit_code (main env_file schema_file) = 1"
    and "stdout (console_of (main env_file schema_file))
        = [ [128640] @ u '' Supabase Database Setup'' @ [10],
            [10060] @ u '' NEXT_PUBLIC_SUPABASE_URL not found in .env'' ]"
    unfolding m by (simp_all add: exit_code_def console_of_def)
next
  assume a: "load_env env_file = Inr env \<and> env (u ''SUPABASE_SERVICE_ROLE_KEY'') = Some [] \<and>
    env (u ''NEXT_PUBLIC_SUPABASE_URL'') = Some url \<and> extract_project_ref url = Some ref"
  then have l: "load_env env_file = Inr env"
    and e: "env (u ''NEXT_PUBLIC_SUPABASE_URL'') = Some url"
    and r: "extract_project_ref url = Some ref"
    by simp_all
  have "main env_file (Content sql) = (0, \<lparr>stdout = intro_lines ref url
      @ guidance_lines ref (env (u ''SUPABASE_SERVICE_ROLE_KEY''))
      @ schema_lines (read_text sql) @ oauth_lines ref (callback_url url), stderr = []\<rparr>)"
    using l e r by (rule main_success)
  with a show "stdout (console_of (main env_file (Content sql)))
        = intro_lines ref url @ [ [128221] @ u '' SQL Schema Execution:'', rule_line ]
          @ missing_key_branch @ schema_lines (read_text sql) @ oauth_lines ref (callback_url url)"
    by (simp add: console_of_def guidance_lines_def truthy_def)
qed

theorem empty_value_as_absent_witness:
  "main (Content (u ''NEXT_PUBLIC_SUPABASE_URL='')) (Content (u ''select 1;''))
     = main (Content []) (Content (u ''select 1;'')) \<and>
   exit_code (main (Content (u ''NEXT_PUBLIC_SUPABASE_URL='')) (Content (u ''select 1;''))) = 1 \<and>
   stdout (console_of (main (Content (u ''NEXT_PUBLIC_SUPABASE_URL='')) (Content (u ''select 1;''))))
     = [ [128640] @ u '' Supabase Database Setup'' @ [10],
         [10060] @ u '' NEXT_PUBLIC_SUPABASE_URL not found in .env'' ] \<and>
   stdout (console_of (main (Content (u ''NEXT_PUBLIC_SUPABASE_URL=https://abc.supabase.co'' @ [10]
       @ u ''SUPABASE_SERVICE_ROLE_KEY='')) (Content (u ''select 1;''))))
     = intro_lines (u ''abc'') (u ''https://abc.supabase.co'')
       @ [ [128221] @ u '' SQL Schema Execution:'', rule_line ]
       @ missing_key_branch @ schema_lines (u ''select 1;'')
       @ oauth_lines (u ''abc'') (callback_url (u ''https://abc.supabase.co''))"
proof -
  let ?t1 = "u ''NEXT_PUBLIC_SUPABASE_URL=''"
  let ?t3 = "u ''NEXT_PUBLIC_SUPABASE_URL=https://abc.supabase.co'' @ [10]
       @ u ''SUPABASE_SERVICE_ROLE_KEY=''"
  let ?url = "u ''https://abc.supabase.co''"
  let ?s = "Content (u ''select 1;'')"
  have e1: "spec_env ?t1 (u ''NEXT_PUBLIC_SUPABASE_URL'') = Some []"
    "spec_env [] = (spec_env ?t1)(u ''NEXT_PUBLIC_SUPABASE_URL'' := None)"
    unfolding example_env_empty by simp_all
  have e3: "spec_env ?t3 (u ''SUPABASE_SERVICE_ROLE_KEY'') = Some []"
    "spec_env ?t3 (u ''NEXT_PUBLIC_SUPABASE_URL'') = Some ?url"
    unfolding example_env_empty using url_key_differ by simp_all
  have h1: "load_env (Content ?t1) = Inr (spec_env ?t1) \<and>
      load_env (Content []) = Inr (spec_env []) \<and>
      spec_env ?t1 (u ''NEXT_PUBLIC_SUPABASE_URL'') = Some [] \<and>
      spec_env [] = (spec_env ?t1)(u ''NEXT_PUBLIC_SUPABASE_URL'' := None) \<and>
      (u ''NEXT_PUBLIC_SUPABASE_URL'' = u ''NEXT_PUBLIC_SUPABASE_URL''
       \<or> u ''NEXT_PUBLIC_SUPABASE_URL'' = u ''SUPABASE_SERVICE_ROLE_KEY'')"
    using load_env_content e1 by blast
  have h2: "load_env (Content ?t1) = Inr (spec_env ?t1) \<and>
      spec_env ?t1 (u ''NEXT_PUBLIC_SUPABASE_URL'') = Some []"
    using h1 by blast
  have h3: "load_env (Content ?t3) = Inr (spec_env ?t3) \<and>
      spec_env ?t3 (u ''SUPABASE_SERVICE_ROLE_KEY'') = Some [] \<and>
      spec_env ?t3 (u ''NEXT_PUBLIC_SUPABASE_URL'') = Some ?url \<and>
      extract_project_ref ?url = Some (u ''abc'')"
    using load_env_content e3 example_ref by blast
  from empty_value_as_absent [of "Content ?t1" "spec_env ?t1" "Content []" "spec_env []"
      "u ''NEXT_PUBLIC_SUPABASE_URL''" ?s ?url "u ''abc''" "u ''select 1;''", unfolded example_sql] h1 h2
  have a: "main (Content ?t1) ?s = main (Content []) ?s"
    and b: "exit_code (main (Content ?t1) ?s) = 1"
    and c: "stdout (console_of (main (Content ?t1) ?s))
       = [ [128640] @ u '' Supabase Database Setup'' @ [10],
           [10060] @ u '' NEXT_PUBLIC_SUPABASE_URL not found in .env'' ]"
    by blast+
  from empty_value_as_absent [of "Content ?t3" "spec_env ?t3" "Content []" "spec_env []"
      "u ''NEXT_PUBLIC_SUPABASE_URL''" ?s ?url "u ''abc''" "u ''select 1;''", unfolded example_sql] h3
  have d: "stdout (console_of (main (Content ?t3) ?s))
     = intro_lines (u ''abc'') ?url @ [ [128221] @ u '' SQL Schema Execution:'', rule_line ]
       @ missing_key_branch @ schema_lines (u ''select 1;'')
       @ oauth_lines (u ''abc'') (callback_url ?url)"
    by blast
  from a b c d show ?thesis by blast
qed

end
